theory Spec2Isabelle
  imports Complex_Main "HOL-Library.Word"
begin

section \<open>Usage recorder: the in-flight request counter (usageDb.js)\<close>

text \<open>
  \<^verbatim>\<open>pendingRequests = { byModel: {}, byAccount: {} }\<close> is a process-wide pair of
  dictionaries. \<^verbatim>\<open>byModel\<close> maps a model key to a count, \<^verbatim>\<open>byAccount\<close> maps a
  connection id to a dictionary from model keys to counts. The counts are JavaScript
  numbers that only ever hold integers here; they are modelled as \<open>int\<close>.
  An absent parameter (\<^verbatim>\<open>undefined\<close>, \<^verbatim>\<open>null\<close>) is \<open>None\<close>; the empty string is
  falsy as well. Keys that name a property inherited from \<^verbatim>\<open>Object.prototype\<close> are
  outside the model.
\<close>

record pending =
  byModel :: "string \<rightharpoonup> int"
  byAccount :: "string \<rightharpoonup> (string \<rightharpoonup> int)"

definition pendingRequests0 :: pending where
  "pendingRequests0 = \<lparr>byModel = Map.empty, byAccount = Map.empty\<rparr>"

definition truthy_str :: "string option \<Rightarrow> bool" where
  "truthy_str s = (case s of None \<Rightarrow> False | Some v \<Rightarrow> v \<noteq> [])"

text \<open>\<^verbatim>\<open>const modelKey = provider ? `${model} (${provider})` : model\<close>\<close>

definition modelKey :: "string \<Rightarrow> string option \<Rightarrow> string" where
  "modelKey model provider =
     (if truthy_str provider then model @ '' ('' @ the provider @ '')'' else model)"

text \<open>
  \<^verbatim>\<open>if (!d[k]) d[k] = 0; d[k] = Math.max(0, d[k] + (started ? 1 : -1))\<close>:
  \<open>bump\<close> is the value stored under \<open>k\<close> afterwards, from the value found there.
\<close>

definition bump :: "int option \<Rightarrow> bool \<Rightarrow> int" where
  "bump v started =
     max 0 ((case v of None \<Rightarrow> 0 | Some n \<Rightarrow> n) + (if started then 1 else - 1))"

definition trackPendingRequest ::
  "pending \<Rightarrow> string \<Rightarrow> string option \<Rightarrow> string option \<Rightarrow> bool \<Rightarrow> pending" where
  "trackPendingRequest st model provider connectionId started =
     (let k = modelKey model provider;
          st1 = st\<lparr>byModel := (byModel st)(k \<mapsto> bump (byModel st k) started)\<rparr>
      in if truthy_str connectionId then
           (let accountKey = the connectionId;
                acct = (case byAccount st1 accountKey of None \<Rightarrow> Map.empty | Some m \<Rightarrow> m)
            in st1\<lparr>byAccount := (byAccount st1)(accountKey \<mapsto> acct(k \<mapsto> bump (acct k) started))\<rparr>)
         else st1)"

text \<open>A sequence of calls, run from the empty counter in order.\<close>

record track_call =
  c_model :: string
  c_provider :: "string option"
  c_connectionId :: "string option"
  c_started :: bool

definition track :: "pending \<Rightarrow> track_call \<Rightarrow> pending" where
  "track st c = trackPendingRequest st (c_model c) (c_provider c) (c_connectionId c) (c_started c)"

definition run_calls :: "track_call list \<Rightarrow> pending" where
  "run_calls cs = foldl track pendingRequests0 cs"

text \<open>What an observer reads: the stored count, an absent key reading as no request.\<close>

definition activeByModel :: "pending \<Rightarrow> string \<Rightarrow> int" where
  "activeByModel st k = (case byModel st k of None \<Rightarrow> 0 | Some n \<Rightarrow> n)"

definition activeByAccount :: "pending \<Rightarrow> string \<Rightarrow> string \<Rightarrow> int" where
  "activeByAccount st a k =
     (case byAccount st a of None \<Rightarrow> 0 | Some m \<Rightarrow> (case m k of None \<Rightarrow> 0 | Some n \<Rightarrow> n))"

text \<open>Calls that touch a model key, and calls that touch a (connection, model key) pair.\<close>

definition hits_model :: "string \<Rightarrow> track_call \<Rightarrow> bool" where
  "hits_model k c = (modelKey (c_model c) (c_provider c) = k)"

definition hits_account :: "string \<Rightarrow> string \<Rightarrow> track_call \<Rightarrow> bool" where
  "hits_account a k c =
     (truthy_str (c_connectionId c) \<and> c_connectionId c = Some a \<and> hits_model k c)"

definition begins :: "(track_call \<Rightarrow> bool) \<Rightarrow> track_call list \<Rightarrow> int" where
  "begins hit cs = int (length (filter (\<lambda>c. hit c \<and> c_started c) cs))"

definition ends :: "(track_call \<Rightarrow> bool) \<Rightarrow> track_call list \<Rightarrow> int" where
  "ends hit cs = int (length (filter (\<lambda>c. hit c \<and> \<not> c_started c) cs))"

text \<open>No end call of the key comes before a begin call it could close.\<close>

fun paired_from :: "int \<Rightarrow> (track_call \<Rightarrow> bool) \<Rightarrow> track_call list \<Rightarrow> bool" where
  "paired_from n hit [] = True"
| "paired_from n hit (c # cs) =
     (if hit c then
        (if c_started c then paired_from (n + 1) hit cs
         else 0 < n \<and> paired_from (n - 1) hit cs)
      else paired_from n hit cs)"

definition paired :: "(track_call \<Rightarrow> bool) \<Rightarrow> track_call list \<Rightarrow> bool" where
  "paired hit cs = paired_from 0 hit cs"

text \<open>Two sample call sequences: two requests of which one has finished, and a lone end call.\<close>

definition demo_calls :: "track_call list" where
  "demo_calls =
     [\<lparr>c_model = ''gpt-4o'', c_provider = Some ''openai'', c_connectionId = Some ''c1'', c_started = True\<rparr>,
      \<lparr>c_model = ''gpt-4o'', c_provider = Some ''openai'', c_connectionId = Some ''c2'', c_started = True\<rparr>,
      \<lparr>c_model = ''gpt-4o'', c_provider = Some ''openai'', c_connectionId = Some ''c1'', c_started = False\<rparr>]"

definition lone_end :: track_call where
  "lone_end = \<lparr>c_model = ''gpt-4o'', c_provider = Some ''openai'', c_connectionId = Some ''c1'', c_started = False\<rparr>"

section \<open>Usage recorder: the cost of a usage entry (usageDb.js)\<close>




















section \<open>JSON values and the JavaScript operations the sources apply to them\<close>

text \<open>
  A parsed JSON value. An object is the list of its own properties in insertion order,
  with distinct keys (\<^verbatim>\<open>JSON.parse\<close> and property assignment keep them distinct).
  Numbers are restricted to integers. Strings are lists of characters with code below
  256. The order in which JavaScript enumerates integer-like keys (ascending, before the
  others) is not modelled; it bears on the order of the properties of a result only.
\<close>

datatype json =
    JNull
  | JBool bool
  | JNum int
  | JStr string
  | JArr "json list"
  | JObj "(string \<times> json) list"

text \<open>\<^verbatim>\<open>if (v)\<close>, \<^verbatim>\<open>!v\<close>, \<^verbatim>\<open>a || b\<close>, \<^verbatim>\<open>a && b\<close>: truthiness of a value.\<close>

fun truthy :: "json \<Rightarrow> bool" where
  "truthy JNull = False"
| "truthy (JBool b) = b"
| "truthy (JNum n) = (n \<noteq> 0)"
| "truthy (JStr s) = (s \<noteq> [])"
| "truthy (JArr xs) = True"
| "truthy (JObj kvs) = True"

text \<open>\<^verbatim>\<open>v && typeof v === "object"\<close>: an array or an object.\<close>

fun is_object :: "json \<Rightarrow> bool" where
  "is_object (JArr xs) = True"
| "is_object (JObj kvs) = True"
| "is_object v = False"

text \<open>
  \<^verbatim>\<open>v.k\<close> for a value that is not \<^verbatim>\<open>null\<close>, where \<open>k\<close> is one of the property
  names the sources read (none of them is an index, \<^verbatim>\<open>length\<close>, or inherited from a
  prototype): \<open>None\<close> is \<^verbatim>\<open>undefined\<close>.
\<close>

fun get_prop :: "json \<Rightarrow> string \<Rightarrow> json option" where
  "get_prop (JObj kvs) k = map_of kvs k"
| "get_prop v k = None"

text \<open>An optional value is truthy when it is defined and truthy.\<close>

definition truthy_opt :: "json option \<Rightarrow> bool" where
  "truthy_opt v = (case v of None \<Rightarrow> False | Some x \<Rightarrow> truthy x)"

text \<open>\<^verbatim>\<open>a || b\<close> with \<open>b\<close> defined.\<close>

definition js_or :: "json option \<Rightarrow> json \<Rightarrow> json" where
  "js_or a b = (case a of None \<Rightarrow> b | Some v \<Rightarrow> if truthy v then v else b)"

text \<open>
  \<^verbatim>\<open>o[k] = v\<close> on an object: an existing property keeps its place, a new one goes last.
  \<^verbatim>\<open>delete o[k]\<close> removes the property.
\<close>

fun obj_set :: "string \<Rightarrow> 'a \<Rightarrow> (string \<times> 'a) list \<Rightarrow> (string \<times> 'a) list" where
  "obj_set k v [] = [(k, v)]"
| "obj_set k v ((k', v') # kvs) =
     (if k' = k then (k, v) # kvs else (k', v') # obj_set k v kvs)"

definition obj_delete :: "string \<Rightarrow> (string \<times> 'a) list \<Rightarrow> (string \<times> 'a) list" where
  "obj_delete k kvs = filter (\<lambda>kv. fst kv \<noteq> k) kvs"

text \<open>The decimal digits of a natural number, as \<^verbatim>\<open>String(n)\<close> prints them below \<open>10\<^sup>2\<^sup>1\<close>.\<close>

definition digit_char :: "nat \<Rightarrow> char" where
  "digit_char d = char_of (48 + d)"

fun dec :: "nat \<Rightarrow> string" where
  "dec n = (if n < 10 then [digit_char n] else dec (n div 10) @ [digit_char (n mod 10)])"

declare dec.simps [simp del]

definition dec_int :: "int \<Rightarrow> string" where
  "dec_int i = (if i < 0 then CHR ''-'' # dec (nat (- i)) else dec (nat i))"

text \<open>White space as \<^verbatim>\<open>String.prototype.trim\<close> sees it, among the characters below 256.\<close>

definition is_js_space :: "char \<Rightarrow> bool" where
  "is_js_space c = (of_char c \<in> {9, 10, 11, 12, 13, 32, 160 :: nat})"

text \<open>\<^verbatim>\<open>!s || !s.trim()\<close>\<close>

definition blank :: "string \<Rightarrow> bool" where
  "blank s = list_all is_js_space s"

section \<open>Kiro executor: AWS EventStream frames to OpenAI chunks (executors/kiro.js)\<close>

text \<open>
  The library functions the executor calls are parameters of the model:
  \<^verbatim>\<open>new TextDecoder().decode\<close> (never throws), \<^verbatim>\<open>JSON.parse\<close> (\<open>None\<close> when it throws),
  \<^verbatim>\<open>JSON.stringify\<close> and \<^verbatim>\<open>Date.now()\<close> (the reading of its \<open>k\<close>-th call). The fields
  \<open>responseId\<close>, \<open>created\<close> and \<open>model\<close> are the constants of one stream.
\<close>

type_synonym byte = "8 word"

record kiro_env =
  textDecode :: "byte list \<Rightarrow> string"
  jsonParse :: "string \<Rightarrow> json option"
  jsonStringify :: "json \<Rightarrow> string"
  dateNow :: "nat \<Rightarrow> nat"
  responseId :: string
  created :: int
  model :: string

subsection \<open>parseEventFrame\<close>

record event =
  headers :: "(string \<times> string) list"
  payload :: json

text \<open>\<^verbatim>\<open>data[i]\<close> is \<^verbatim>\<open>undefined\<close> out of range; in \<^verbatim>\<open>(a << 8) | b\<close> that reads as 0.\<close>

definition byte_at :: "byte list \<Rightarrow> nat \<Rightarrow> nat option" where
  "byte_at data i = (if i < length data then Some (unat (data ! i)) else None)"

definition byte_or0 :: "byte list \<Rightarrow> nat \<Rightarrow> nat" where
  "byte_or0 data i = (case byte_at data i of None \<Rightarrow> 0 | Some b \<Rightarrow> b)"

text \<open>\<^verbatim>\<open>data.slice(a, b)\<close> for \<open>0 \<le> a\<close>: the bounds are clamped to the array.\<close>

definition slice :: "byte list \<Rightarrow> nat \<Rightarrow> nat \<Rightarrow> byte list" where
  "slice data a b = take (b - a) (drop a data)"

text \<open>\<^verbatim>\<open>view.getUint32(i, false)\<close>, for \<open>i + 4 \<le> length data\<close>.\<close>

definition getUint32 :: "byte list \<Rightarrow> nat \<Rightarrow> nat" where
  "getUint32 data i =
     unat (data ! i) * 16777216 + unat (data ! (i + 1)) * 65536
     + unat (data ! (i + 2)) * 256 + unat (data ! (i + 3))"

text \<open>
  \<^verbatim>\<open>headers[name] = value\<close> on a plain object: assigning a string to \<^verbatim>\<open>__proto__\<close> is
  ignored by the inherited setter.
\<close>

definition header_set :: "string \<Rightarrow> string \<Rightarrow> (string \<times> string) list \<Rightarrow> (string \<times> string) list" where
  "header_set name v hs = (if name = ''__proto__'' then hs else obj_set name v hs)"

text \<open>
  The header loop: \<^verbatim>\<open>while (offset < headerEnd && offset < data.length) { ... }\<close>. Every
  \<^verbatim>\<open>break\<close> returns the headers read so far.
\<close>

function parse_headers ::
  "(byte list \<Rightarrow> string) \<Rightarrow> byte list \<Rightarrow> nat \<Rightarrow> nat \<Rightarrow> (string \<times> string) list
     \<Rightarrow> (string \<times> string) list" where
  "parse_headers decode data offset headerEnd hs =
     (if offset < headerEnd \<and> offset < length data then
        (let nameLen = byte_or0 data offset;
             offset1 = offset + 1
         in if offset1 + nameLen > length data then hs
            else
              (let name = decode (slice data offset1 (offset1 + nameLen));
                   offset2 = offset1 + nameLen;
                   headerType = byte_at data offset2;
                   offset3 = offset2 + 1
               in if headerType = Some 7 then
                    (let valueLen = or (push_bit 8 (byte_or0 data offset3))
                                       (byte_or0 data (offset3 + 1));
                         offset4 = offset3 + 2
                     in if offset4 + valueLen > length data then hs
                        else parse_headers decode data (offset4 + valueLen) headerEnd
                               (header_set name
                                  (decode (slice data offset4 (offset4 + valueLen))) hs))
                  else hs))
      else hs)"
  by pat_completeness auto
termination
  by (relation "measure (\<lambda>(decode, data, offset, headerEnd, hs). length data - offset)")
     (auto simp add: Let_def)

declare parse_headers.simps [simp del]

text \<open>
  \<^verbatim>\<open>parseEventFrame(data)\<close>, for an array that owns its buffer (as the slice made by the
  caller does). \<^verbatim>\<open>getUint32(4)\<close> throws a \<^verbatim>\<open>RangeError\<close> on fewer than 8 bytes; the
  \<^verbatim>\<open>catch\<close> turns it into \<^verbatim>\<open>null\<close>, here \<open>None\<close>. Nothing else in the body throws.
\<close>

definition parse_payload :: "kiro_env \<Rightarrow> byte list \<Rightarrow> nat \<Rightarrow> json" where
  "parse_payload env data headersLength =
     (let payloadStart = 12 + headersLength;
          payloadEnd = int (length data) - 4
      in if payloadEnd > int payloadStart then
           (let payloadStr = textDecode env (slice data payloadStart (nat payloadEnd))
            in if blank payloadStr then JNull
               else (case jsonParse env payloadStr of
                       Some v \<Rightarrow> v
                     | None \<Rightarrow> JObj [(''raw'', JStr payloadStr)]))
         else JNull)"

definition parseEventFrame :: "kiro_env \<Rightarrow> byte list \<Rightarrow> event option" where
  "parseEventFrame env data =
     (if length data < 8 then None
      else (let headersLength = getUint32 data 4
            in Some \<lparr>headers = parse_headers (textDecode env) data 12 (12 + headersLength) [],
                     payload = parse_payload env data headersLength\<rparr>))"

subsection \<open>transformEventStreamToSSE\<close>

text \<open>
  What \<^verbatim>\<open>controller.enqueue\<close> receives is \<^verbatim>\<open>data: \<close> followed by the
  \<^verbatim>\<open>JSON.stringify\<close> of a chunk and a blank line, or the line \<^verbatim>\<open>data: [DONE]\<close>. The model
  keeps the chunk itself.
\<close>

datatype sse = Data json | DoneLine

datatype stream_phase = Open | Closed | Errored

text \<open>
  The variables of the closure (\<open>buffer\<close>, \<open>chunkIndex\<close>, \<open>state\<close>), the number of
  \<^verbatim>\<open>Date.now()\<close> calls made so far, whether the 100 ms timer is scheduled and has not
  run yet, the state of the output stream, and everything enqueued so far.
\<close>

record kstate =
  buffer :: "byte list"
  chunkIndex :: nat
  endDetected :: bool
  finishEmitted :: bool
  hasToolCalls :: bool
  toolCallIndex :: nat
  seenToolIds :: "(json \<times> nat) list"
  clockReads :: nat
  timerPending :: bool
  phase :: stream_phase
  emitted :: "sse list"

definition kstate0 :: kstate where
  "kstate0 = \<lparr>buffer = [], chunkIndex = 0, endDetected = False, finishEmitted = False,
              hasToolCalls = False, toolCallIndex = 0, seenToolIds = [], clockReads = 0,
              timerPending = False, phase = Open, emitted = []\<rparr>"

definition enqueue :: "sse \<Rightarrow> kstate \<Rightarrow> kstate" where
  "enqueue x st = st\<lparr>emitted := emitted st @ [x]\<rparr>"

text \<open>
  The \<^verbatim>\<open>Map\<close> of tool-use ids. Its keys compare by \<^verbatim>\<open>SameValueZero\<close>: primitives by
  value, arrays and objects by identity, and every parsed array or object is a fresh one,
  so such a key is never found again.
\<close>

definition seen_get :: "(json \<times> nat) list \<Rightarrow> json \<Rightarrow> nat option" where
  "seen_get m k = (if is_object k then None else map_of m k)"

definition seen_has :: "(json \<times> nat) list \<Rightarrow> json \<Rightarrow> bool" where
  "seen_has m k = (seen_get m k \<noteq> None)"

definition seen_set :: "json \<Rightarrow> nat \<Rightarrow> (json \<times> nat) list \<Rightarrow> (json \<times> nat) list" where
  "seen_set k i m = (if seen_has m k then map (\<lambda>(k', j). if k' = k then (k', i) else (k', j)) m
                     else m @ [(k, i)])"

text \<open>The chunk objects, property by property as the source writes them.\<close>

definition mk_chunk :: "kiro_env \<Rightarrow> json \<Rightarrow> json \<Rightarrow> json" where
  "mk_chunk env delta finish_reason =
     JObj [(''id'', JStr (responseId env)),
           (''object'', JStr ''chat.completion.chunk''),
           (''created'', JNum (created env)),
           (''model'', JStr (model env)),
           (''choices'', JArr [JObj [(''index'', JNum 0),
                                     (''delta'', delta),
                                     (''finish_reason'', finish_reason)]])]"

definition finishChunk :: "kiro_env \<Rightarrow> kstate \<Rightarrow> json" where
  "finishChunk env st =
     mk_chunk env (JObj []) (JStr (if hasToolCalls st then ''tool_calls'' else ''stop''))"

definition startChunk :: "kiro_env \<Rightarrow> kstate \<Rightarrow> nat \<Rightarrow> json \<Rightarrow> json \<Rightarrow> json" where
  "startChunk env st toolIndex toolCallId toolName =
     mk_chunk env
       (JObj ((if chunkIndex st = 0 then [(''role'', JStr ''assistant'')] else []) @
              [(''tool_calls'',
                JArr [JObj [(''index'', JNum (int toolIndex)),
                            (''id'', toolCallId),
                            (''type'', JStr ''function''),
                            (''function'', JObj [(''name'', toolName),
                                                 (''arguments'', JStr '''')])]])]))
       JNull"

definition argsChunk :: "kiro_env \<Rightarrow> nat \<Rightarrow> string \<Rightarrow> json" where
  "argsChunk env toolIndex argumentsStr =
     mk_chunk env
       (JObj [(''tool_calls'',
               JArr [JObj [(''index'', JNum (int toolIndex)),
                           (''function'', JObj [(''arguments'', JStr argumentsStr)])]])])
       JNull"

text \<open>
  The body of \<^verbatim>\<open>for (const singleToolUse of toolUses)\<close>. Reading a property of
  \<^verbatim>\<open>null\<close> throws a \<^verbatim>\<open>TypeError\<close>: the result is then \<open>Inl\<close> of the state at the
  throw, and \<open>Inr\<close> of the new state otherwise.
\<close>

definition tool_use_step :: "kiro_env \<Rightarrow> kstate \<Rightarrow> json \<Rightarrow> kstate + kstate" where
  "tool_use_step env st singleToolUse =
     (if singleToolUse = JNull then Inl st
      else
        (let named = truthy_opt (get_prop singleToolUse ''toolUseId'');
             toolCallId = (if named then the (get_prop singleToolUse ''toolUseId'')
                           else JStr (''call_'' @ dec (dateNow env (clockReads st))));
             st0 = (if named then st else st\<lparr>clockReads := clockReads st + 1\<rparr>);
             toolName = js_or (get_prop singleToolUse ''name'') (JStr []);
             toolInput = get_prop singleToolUse ''input'';
             isNewTool = \<not> seen_has (seenToolIds st0) toolCallId;
             toolIndex = (if isNewTool then toolCallIndex st0
                          else the (seen_get (seenToolIds st0) toolCallId));
             st1 = (if isNewTool then
                      enqueue (Data (startChunk env st0 toolIndex toolCallId toolName))
                        (st0\<lparr>toolCallIndex := toolCallIndex st0 + 1,
                             seenToolIds := seen_set toolCallId toolIndex (seenToolIds st0),
                             chunkIndex := chunkIndex st0 + 1\<rparr>)
                    else st0)
         in Inr (case toolInput of
               None \<Rightarrow> st1
             | Some (JStr s) \<Rightarrow>
                 enqueue (Data (argsChunk env toolIndex s)) (st1\<lparr>chunkIndex := chunkIndex st1 + 1\<rparr>)
             | Some (JBool b) \<Rightarrow> st1
             | Some (JNum n) \<Rightarrow> st1
             | Some v \<Rightarrow>
                 enqueue (Data (argsChunk env toolIndex (jsonStringify env v)))
                   (st1\<lparr>chunkIndex := chunkIndex st1 + 1\<rparr>))))"

fun tool_uses :: "kiro_env \<Rightarrow> kstate \<Rightarrow> json list \<Rightarrow> kstate + kstate" where
  "tool_uses env st [] = Inr st"
| "tool_uses env st (u # us) =
     (case tool_use_step env st u of
        Inl st1 \<Rightarrow> Inl st1
      | Inr st1 \<Rightarrow> tool_uses env st1 us)"

text \<open>\<^verbatim>\<open>event.headers[":event-type"] || ""\<close> and \<^verbatim>\<open>event.payload?.content\<close>.\<close>

definition eventType :: "event \<Rightarrow> string" where
  "eventType ev = (case map_of (headers ev) '':event-type'' of None \<Rightarrow> [] | Some t \<Rightarrow> t)"

definition payload_content :: "event \<Rightarrow> json option" where
  "payload_content ev = (if payload ev = JNull then None else get_prop (payload ev) ''content'')"

text \<open>
  One turn of the frame loop after \<^verbatim>\<open>parseEventFrame\<close> returned an event; \<open>Inl\<close> when
  the tool-use loop threw.
\<close>

definition handle_event :: "kiro_env \<Rightarrow> kstate \<Rightarrow> event \<Rightarrow> kstate + kstate" where
  "handle_event env st ev =
     (let t = eventType ev;
          st1 = (if t = ''assistantResponseEvent'' \<and> truthy_opt (payload_content ev) then
                   enqueue (Data (mk_chunk env
                       (if chunkIndex st = 0
                        then JObj [(''role'', JStr ''assistant''), (''content'', the (payload_content ev))]
                        else JObj [(''content'', the (payload_content ev))])
                       JNull))
                     (st\<lparr>chunkIndex := chunkIndex st + 1\<rparr>)
                 else st);
          st2 = (if t = ''codeEvent'' \<and> truthy_opt (payload_content ev) then
                   enqueue (Data (mk_chunk env (JObj [(''content'', the (payload_content ev))]) JNull))
                     (st1\<lparr>chunkIndex := chunkIndex st1 + 1\<rparr>)
                 else st1);
          r3 = (if t = ''toolUseEvent'' \<and> truthy (payload ev) then
                  tool_uses env (st2\<lparr>hasToolCalls := True\<rparr>)
                    (case payload ev of JArr us \<Rightarrow> us | u \<Rightarrow> [u])
                else Inr st2)
      in (case r3 of
            Inl st3 \<Rightarrow> Inl st3
          | Inr st3 \<Rightarrow>
              (let st4 = (if t = ''messageStopEvent'' then
                            enqueue (Data (finishChunk env st3)) (st3\<lparr>finishEmitted := True\<rparr>)
                          else st3);
                   st5 = (if (t = ''meteringEvent'' \<or> t = ''contextUsageEvent'') \<and> \<not> endDetected st4
                          then st4\<lparr>endDetected := True, timerPending := True\<rparr>
                          else st4)
               in Inr st5)))"

text \<open>
  \<^verbatim>\<open>while (buffer.length >= 16) { ... }\<close>. The buffer is threaded beside the rest of the
  state. A frame for which \<^verbatim>\<open>parseEventFrame\<close> returns \<^verbatim>\<open>null\<close> is dropped
  (\<^verbatim>\<open>if (!event) continue\<close>). A throw leaves the loop with the frame already taken off
  the buffer.
\<close>

function frames_loop :: "kiro_env \<Rightarrow> byte list \<Rightarrow> kstate \<Rightarrow> byte list \<times> (kstate + kstate)" where
  "frames_loop env buf st =
     (if length buf \<ge> 16 then
        (let totalLength = getUint32 buf 0
         in if totalLength < 16 \<or> length buf < totalLength then (buf, Inr st)
            else
              (case parseEventFrame env (slice buf 0 totalLength) of
                 None \<Rightarrow> frames_loop env (drop totalLength buf) st
               | Some ev \<Rightarrow>
                   (case handle_event env st ev of
                      Inl st1 \<Rightarrow> (drop totalLength buf, Inl st1)
                    | Inr st1 \<Rightarrow> frames_loop env (drop totalLength buf) st1)))
      else (buf, Inr st))"
  by pat_completeness auto
termination
  by (relation "measure (\<lambda>(env, buf, st). length buf)") (auto simp add: Let_def)

declare frames_loop.simps [simp del]

text \<open>
  One call of \<^verbatim>\<open>pull\<close> when \<^verbatim>\<open>reader.read()\<close> yields a value, one when it reports
  \<^verbatim>\<open>done\<close>, and the callback of \<^verbatim>\<open>setTimeout\<close>. The stream calls \<^verbatim>\<open>pull\<close> only while it
  is open, and its \<^verbatim>\<open>catch\<close> hands a throw to \<^verbatim>\<open>controller.error\<close>;
  \<^verbatim>\<open>controller.enqueue\<close> in a timer callback that runs later throws there and adds
  nothing.
\<close>

definition pull_value :: "kiro_env \<Rightarrow> kstate \<Rightarrow> byte list \<Rightarrow> kstate" where
  "pull_value env st v =
     (if phase st \<noteq> Open then st
      else (case frames_loop env (buffer st @ v) st of
              (buf, Inr st1) \<Rightarrow> st1\<lparr>buffer := buf\<rparr>
            | (buf, Inl st1) \<Rightarrow> st1\<lparr>buffer := buf, phase := Errored\<rparr>))"

definition pull_done :: "kiro_env \<Rightarrow> kstate \<Rightarrow> kstate" where
  "pull_done env st =
     (if phase st \<noteq> Open then st
      else
        (let st1 = (if \<not> finishEmitted st
                    then enqueue (Data (finishChunk env st)) (st\<lparr>finishEmitted := True\<rparr>)
                    else st)
         in (enqueue DoneLine st1)\<lparr>phase := Closed\<rparr>))"

definition timer_fires :: "kiro_env \<Rightarrow> kstate \<Rightarrow> kstate" where
  "timer_fires env st =
     (if \<not> timerPending st then st
      else
        (let st1 = st\<lparr>timerPending := False\<rparr>
         in if \<not> finishEmitted st1 then
              (let st2 = st1\<lparr>finishEmitted := True\<rparr>
               in if phase st2 = Open then enqueue (Data (finishChunk env st2)) st2 else st2)
            else st1))"

text \<open>What happens to a stream, in order.\<close>

datatype upstream = Read "byte list" | ReadDone | Timer

fun upstream_step :: "kiro_env \<Rightarrow> kstate \<Rightarrow> upstream \<Rightarrow> kstate" where
  "upstream_step env st (Read v) = pull_value env st v"
| "upstream_step env st ReadDone = pull_done env st"
| "upstream_step env st Timer = timer_fires env st"

definition transformEventStreamToSSE :: "kiro_env \<Rightarrow> upstream list \<Rightarrow> kstate" where
  "transformEventStreamToSSE env ups = foldl (upstream_step env) kstate0 ups"

text \<open>Reading a chunk back: \<^verbatim>\<open>chunk.choices[0].delta\<close> and \<^verbatim>\<open>chunk.choices[0].finish_reason\<close>.\<close>

definition choice0 :: "json \<Rightarrow> json option" where
  "choice0 c = (case get_prop c ''choices'' of Some (JArr (x # xs)) \<Rightarrow> Some x | _ \<Rightarrow> None)"

definition chunk_delta :: "json \<Rightarrow> json option" where
  "chunk_delta c = (case choice0 c of Some x \<Rightarrow> get_prop x ''delta'' | None \<Rightarrow> None)"

definition chunk_finish_reason :: "json \<Rightarrow> json option" where
  "chunk_finish_reason c = (case choice0 c of Some x \<Rightarrow> get_prop x ''finish_reason'' | None \<Rightarrow> None)"

definition delta_tool_calls :: "json \<Rightarrow> json option" where
  "delta_tool_calls c = (case chunk_delta c of Some d \<Rightarrow> get_prop d ''tool_calls'' | None \<Rightarrow> None)"

text \<open>
  The chunks that the \<^verbatim>\<open>input\<close> of a tool use adds: none when it is \<^verbatim>\<open>undefined\<close>, a
  number or a boolean, one fragment when it is a string, one with its
  \<^verbatim>\<open>JSON.stringify\<close> otherwise.
\<close>

definition input_chunks :: "kiro_env \<Rightarrow> nat \<Rightarrow> json option \<Rightarrow> sse list" where
  "input_chunks env toolIndex toolInput =
     (case toolInput of
        None \<Rightarrow> []
      | Some (JStr s) \<Rightarrow> [Data (argsChunk env toolIndex s)]
      | Some (JBool b) \<Rightarrow> []
      | Some (JNum n) \<Rightarrow> []
      | Some v \<Rightarrow> [Data (argsChunk env toolIndex (jsonStringify env v))])"

text \<open>An event as \<^verbatim>\<open>parseEventFrame\<close> returns it for a frame of the given type and payload.\<close>

definition event_of :: "string \<Rightarrow> json \<Rightarrow> event" where
  "event_of t p = \<lparr>headers = [('':event-type'', t)], payload = p\<rparr>"

subsection \<open>Sequences of events\<close>

text \<open>
  The turns of the frame loop for the events of successive frames: the loop goes on with
  the state an event leaves, and a throw ends it.
\<close>

fun handle_events :: "kiro_env \<Rightarrow> kstate \<Rightarrow> event list \<Rightarrow> kstate + kstate" where
  "handle_events env st [] = Inr st"
| "handle_events env st (ev # evs) =
     (case handle_event env st ev of
        Inl st1 \<Rightarrow> Inl st1
      | Inr st1 \<Rightarrow> handle_events env st1 evs)"


text \<open>
  \<^verbatim>\<open>singleToolUse.toolUseId || `call_${Date.now()}`\<close>, and the tool uses that the handler of
  \<^verbatim>\<open>toolUseEvent\<close> walks through for an event.
\<close>

definition toolCallId :: "kiro_env \<Rightarrow> kstate \<Rightarrow> json \<Rightarrow> json" where
  "toolCallId env st u =
     js_or (get_prop u ''toolUseId'') (JStr (''call_'' @ dec (dateNow env (clockReads st))))"



text \<open>
  A start chunk for the id \<open>k\<close>: a chunk whose \<^verbatim>\<open>delta.tool_calls\<close> has one entry, with
  \<open>k\<close> as \<^verbatim>\<open>id\<close>.
\<close>

definition starts_tool :: "json \<Rightarrow> sse \<Rightarrow> bool" where
  "starts_tool k x =
     (case x of
        DoneLine \<Rightarrow> False
      | Data c \<Rightarrow>
          (case delta_tool_calls c of
             Some (JArr [e]) \<Rightarrow> get_prop e ''id'' = Some k
           | _ \<Rightarrow> False))"

text \<open>
  From \<open>st\<close> to \<open>st'\<close> nothing happened to the id \<open>k\<close>: what was emitted meanwhile holds no
  start chunk for \<open>k\<close>, the index recorded for \<open>k\<close> (or its absence) is the same, and the
  has-tool-calls flag was not taken back.
\<close>

definition quiet :: "json \<Rightarrow> kstate \<Rightarrow> kstate \<Rightarrow> bool" where
  "quiet k st st' =
     (take (length (emitted st)) (emitted st') = emitted st \<and>
      \<not> list_ex (starts_tool k) (drop (length (emitted st)) (emitted st')) \<and>
      seen_get (seenToolIds st') k = seen_get (seenToolIds st) k \<and>
      (hasToolCalls st \<longrightarrow> hasToolCalls st'))"

text \<open>
  A frame as the loop cuts it off the buffer: at least 16 bytes, as many as its length
  prefix says. The event that \<^verbatim>\<open>parseEventFrame\<close> returns for it.
\<close>

definition complete_frame :: "byte list \<Rightarrow> bool" where
  "complete_frame f = (16 \<le> length f \<and> getUint32 f 0 = length f)"

definition event_at :: "kiro_env \<Rightarrow> byte list \<Rightarrow> event" where
  "event_at env f =
     (case parseEventFrame env f of
        Some ev \<Rightarrow> ev
      | None \<Rightarrow> \<lparr>headers = [], payload = JNull\<rparr>)"

subsection \<open>Sample frames\<close>

text \<open>
  An encoder for frames with the single string header \<^verbatim>\<open>:event-type\<close> and zeroed
  checksums (the parser does not read them), an environment that decodes one byte to one
  character and parses the two payloads of the scenario, and the scenario's two frames:
  the same \<^verbatim>\<open>toolUseId\<close> twice, first without \<^verbatim>\<open>input\<close>, then with the string
  \<^verbatim>\<open>{"a":1}\<close>.
\<close>

definition u32be :: "nat \<Rightarrow> byte list" where
  "u32be n = [of_nat (n div 16777216), of_nat (n div 65536 mod 256),
              of_nat (n div 256 mod 256), of_nat (n mod 256)]"

definition ascii_bytes :: "string \<Rightarrow> byte list" where
  "ascii_bytes s = map (\<lambda>c. of_nat (of_char c)) s"

definition latin1_decode :: "byte list \<Rightarrow> string" where
  "latin1_decode bs = map (\<lambda>b. char_of (unat b)) bs"

definition header_bytes :: "string \<Rightarrow> string \<Rightarrow> byte list" where
  "header_bytes name v =
     of_nat (length name) # ascii_bytes name @
     [7, of_nat (length v div 256), of_nat (length v mod 256)] @ ascii_bytes v"

definition frame_of :: "string \<Rightarrow> string \<Rightarrow> byte list" where
  "frame_of t p =
     (let hs = header_bytes '':event-type'' t
      in u32be (16 + length hs + length p) @ u32be (length hs) @ [0, 0, 0, 0] @
         hs @ ascii_bytes p @ [0, 0, 0, 0])"

definition quoted :: "string \<Rightarrow> string" where
  "quoted s = CHR 0x22 # s @ [CHR 0x22]"

definition args_text :: string where
  "args_text = ''{'' @ quoted ''a'' @ '':1}''"

definition payload1 :: string where
  "payload1 = ''{'' @ quoted ''toolUseId'' @ '':'' @ quoted ''t1'' @ '','' @
              quoted ''name'' @ '':'' @ quoted ''get_weather'' @ ''}''"

definition payload2 :: string where
  "payload2 = ''{'' @ quoted ''toolUseId'' @ '':'' @ quoted ''t1'' @ '','' @
              quoted ''name'' @ '':'' @ quoted ''get_weather'' @ '','' @
              quoted ''input'' @ '':'' @
              quoted (''{'' @ [CHR 0x5C, CHR 0x22] @ ''a'' @ [CHR 0x5C, CHR 0x22] @ '':1}'') @ ''}''"

definition tool_use1 :: json where
  "tool_use1 = JObj [(''toolUseId'', JStr ''t1''), (''name'', JStr ''get_weather'')]"

definition tool_use2 :: json where
  "tool_use2 = JObj [(''toolUseId'', JStr ''t1''), (''name'', JStr ''get_weather''),
                     (''input'', JStr args_text)]"

definition demo_parse :: "string \<Rightarrow> json option" where
  "demo_parse s = (if s = payload1 then Some tool_use1
                   else if s = payload2 then Some tool_use2
                   else if s = ''{}'' then Some (JObj [])
                   else None)"

definition demo_env :: kiro_env where
  "demo_env = \<lparr>textDecode = latin1_decode, jsonParse = demo_parse,
                jsonStringify = (\<lambda>v. []), dateNow = (\<lambda>k. 0),
                responseId = ''chatcmpl-0'', created = 0, model = ''kiro''\<rparr>"

definition frame1 :: "byte list" where
  "frame1 = frame_of ''toolUseEvent'' payload1"

definition frame2 :: "byte list" where
  "frame2 = frame_of ''toolUseEvent'' payload2"

definition stop_frame :: "byte list" where
  "stop_frame = frame_of ''messageStopEvent'' ''{}''"

definition other_frame :: "byte list" where
  "other_frame = frame_of ''followupPromptEvent'' ''{}''"

definition ev1 :: event where
  "ev1 = event_of ''toolUseEvent'' tool_use1"

definition ev2 :: event where
  "ev2 = event_of ''toolUseEvent'' tool_use2"

definition stop_ev :: event where
  "stop_ev = event_of ''messageStopEvent'' (JObj [])"

definition after_two_frames :: kstate where
  "after_two_frames = transformEventStreamToSSE demo_env [Read frame1, Read frame2]"

text \<open>The states after the first and after the second frame of the scenario.\<close>

definition state1 :: kstate where
  "state1 = \<lparr>buffer = [], chunkIndex = 1, endDetected = False, finishEmitted = False,
             hasToolCalls = True, toolCallIndex = 1, seenToolIds = [(JStr ''t1'', 0)],
             clockReads = 0, timerPending = False, phase = Open,
             emitted = [Data (startChunk demo_env kstate0 0 (JStr ''t1'') (JStr ''get_weather''))]\<rparr>"

definition state2 :: kstate where
  "state2 = \<lparr>buffer = [], chunkIndex = 2, endDetected = False, finishEmitted = False,
             hasToolCalls = True, toolCallIndex = 1, seenToolIds = [(JStr ''t1'', 0)],
             clockReads = 0, timerPending = False, phase = Open,
             emitted = [Data (startChunk demo_env kstate0 0 (JStr ''t1'') (JStr ''get_weather'')),
                        Data (argsChunk demo_env 0 args_text)]\<rparr>"




definition raw_frame :: "byte list" where
  "raw_frame = frame_of ''toolUseEvent'' ''oops''"

definition short_head :: "byte list" where
  "short_head = [0, 0, 0, 5, 0, 0, 0, 0, 0, 0, 0, 0, 0, 0, 0, 0]"

definition idle_ev :: event where
  "idle_ev = event_of ''followupPromptEvent'' (JObj [])"


section \<open>Chat core and the account loop (handlers/chatCore.js, sse/handlers/chat.js)\<close>

text \<open>
  What the client receives: a status and a body that is a piped event stream, a JSON
  document, or an error message. A thrown exception (a rejected promise) is \<open>Rejected\<close>.
\<close>

datatype body_kind = EventStream | JsonBody json | ErrorMessage string | Synthetic

datatype http_response = Response nat body_kind

fun status_of :: "http_response \<Rightarrow> nat" where
  "status_of (Response s b) = s"

fun content_of :: "http_response \<Rightarrow> body_kind" where
  "content_of (Response s b) = b"

text \<open>
  The result object of \<^verbatim>\<open>handleChatCore\<close>: \<^verbatim>\<open>{success: true, response}\<close>, or what
  \<^verbatim>\<open>createErrorResult(statusCode, errMsg, retryAfterMs)\<close> builds, or a throw.
  \<^verbatim>\<open>createErrorResult\<close> is in utils/error.js, which is not among the sources; its
  \<^verbatim>\<open>response\<close> is taken to carry the status and the message it is given.
\<close>

datatype core_result =
    Success http_response
  | Failure nat string "nat option"
  | Rejected

text \<open>
  The upstream response as the handler reads it: its status (\<^verbatim>\<open>ok\<close> is a status from
  200 to 299) and what \<^verbatim>\<open>response.json()\<close> yields, \<open>None\<close> when that throws.
\<close>

record upstream_response =
  up_status :: nat
  up_json :: "json option"

definition ok :: "upstream_response \<Rightarrow> bool" where
  "ok r = (200 \<le> up_status r \<and> up_status r \<le> 299)"

datatype exec_outcome = ExecAbort | ExecError string | ExecResponse upstream_response

text \<open>
  Everything \<^verbatim>\<open>handleChatCore\<close> obtains from its collaborators during one attempt:
  the answer of \<^verbatim>\<open>handleBypassRequest\<close>, the outcome of \<^verbatim>\<open>executor.execute\<close>, whether
  \<^verbatim>\<open>refreshWithRetry\<close> (three attempts) came back with an access token, the outcome of
  the retried \<^verbatim>\<open>execute\<close>, and the functions \<^verbatim>\<open>parseUpstreamError\<close> and
  \<^verbatim>\<open>formatProviderError\<close>. None of these is among the sources.
\<close>

record core_env =
  bypassResponse :: "core_result option"
  execute1 :: exec_outcome
  refreshed :: bool
  execute2 :: exec_outcome
  parseUpstreamError :: "upstream_response \<Rightarrow> nat \<times> string \<times> nat option"
  formatProviderError :: "string \<Rightarrow> nat \<Rightarrow> string"

datatype core_effect = TrackBegin | TrackEnd | CredentialsRefreshed | RequestSuccess

text \<open>\<^verbatim>\<open>const stream = body.stream !== false\<close>\<close>

definition stream_of :: "json \<Rightarrow> bool" where
  "stream_of body = (get_prop body ''stream'' \<noteq> Some (JBool False))"

text \<open>
  The response that is classified after the 401/403 branch: the retried one when the
  refresh succeeded and the retry returned an OK response, the first one otherwise.
\<close>

definition after_refresh :: "core_env \<Rightarrow> upstream_response \<Rightarrow> upstream_response \<times> core_effect list" where
  "after_refresh env r1 =
     (if up_status r1 = 401 \<or> up_status r1 = 403 then
        (if refreshed env then
           (case execute2 env of
              ExecResponse r2 \<Rightarrow> (if ok r2 then (r2, [CredentialsRefreshed]) else (r1, [CredentialsRefreshed]))
            | ExecAbort \<Rightarrow> (r1, [CredentialsRefreshed])
            | ExecError m \<Rightarrow> (r1, [CredentialsRefreshed]))
         else (r1, []))
      else (r1, []))"

text \<open>
  \<^verbatim>\<open>handleChatCore\<close>: the result and, in order, the calls of
  \<^verbatim>\<open>trackPendingRequest\<close> and of the callbacks. Logging is left out. On a stream the
  in-flight counter is decremented later, by the stream transform.
\<close>

definition handleChatCore :: "core_env \<Rightarrow> json \<Rightarrow> core_result \<times> core_effect list" where
  "handleChatCore env body =
     (case bypassResponse env of
        Some r \<Rightarrow> (r, [])
      | None \<Rightarrow>
          (let stream = stream_of body
           in (case execute1 env of
                 ExecAbort \<Rightarrow> (Failure 499 ''Request aborted'' None, [TrackBegin, TrackEnd])
               | ExecError m \<Rightarrow>
                   (Failure 502 (formatProviderError env m 502) None, [TrackBegin, TrackEnd])
               | ExecResponse r1 \<Rightarrow>
                   (let (providerResponse, effs) = after_refresh env r1
                    in if \<not> ok providerResponse then
                         (let (statusCode, message, retryAfterMs) = parseUpstreamError env providerResponse
                          in (Failure statusCode (formatProviderError env message statusCode) retryAfterMs,
                              [TrackBegin] @ effs @ [TrackEnd]))
                       else if \<not> stream then
                         (case up_json providerResponse of
                            None \<Rightarrow> (Rejected, [TrackBegin] @ effs @ [TrackEnd])
                          | Some responseBody \<Rightarrow>
                              (Success (Response 200 (JsonBody responseBody)),
                               [TrackBegin] @ effs @ [TrackEnd, RequestSuccess]))
                       else (Success (Response 200 EventStream),
                             [TrackBegin] @ effs @ [RequestSuccess])))))"

text \<open>The upstream response was OK, at once or after a refreshed retry; none when \<^verbatim>\<open>execute\<close> threw.\<close>

definition upstream_ok :: "core_env \<Rightarrow> bool" where
  "upstream_ok env =
     (case execute1 env of
        ExecResponse r1 \<Rightarrow> ok (fst (after_refresh env r1))
      | ExecAbort \<Rightarrow> False
      | ExecError m \<Rightarrow> False)"

definition upstream_body :: "core_env \<Rightarrow> json option" where
  "upstream_body env =
     (case execute1 env of
        ExecResponse r1 \<Rightarrow> up_json (fst (after_refresh env r1))
      | ExecAbort \<Rightarrow> None
      | ExecError m \<Rightarrow> None)"

text \<open>The body asks for a stream with \<^verbatim>\<open>stream: true\<close>; the response is an event stream.\<close>

definition requests_streaming :: "json \<Rightarrow> bool" where
  "requests_streaming body = (get_prop body ''stream'' = Some (JBool True))"

definition is_event_stream :: "core_result \<Rightarrow> bool" where
  "is_event_stream r = (case r of Success (Response s EventStream) \<Rightarrow> True | _ \<Rightarrow> False)"

subsection \<open>handleSingleModelChat\<close>

text \<open>
  The credential store, the fallback policy and the upstream are not among the sources
  (services/auth.js, services/accountFallback.js): the loop is modelled over a world
  \<open>'w\<close> with \<^verbatim>\<open>getProviderCredentials\<close>, \<^verbatim>\<open>checkFallbackError\<close>,
  \<^verbatim>\<open>markAccountUnavailable\<close> as parameters, and \<open>attempt\<close> giving what the chat core
  meets when it runs with a credential, and the world afterwards.
\<close>

record 'w chat_world =
  getProviderCredentials :: "'w \<Rightarrow> string option \<Rightarrow> string option"
  attempt :: "'w \<Rightarrow> string \<Rightarrow> core_env \<times> 'w"
  checkFallbackError :: "nat \<Rightarrow> string \<Rightarrow> bool \<times> nat"
  markAccountUnavailable :: "'w \<Rightarrow> string \<Rightarrow> nat \<Rightarrow> nat \<Rightarrow> 'w"

text \<open>A call of \<^verbatim>\<open>markAccountUnavailable\<close>: connection id, cooldown in ms, status.\<close>

type_synonym marking = "string \<times> nat \<times> nat"

datatype chat_outcome = Responded http_response | Thrown

text \<open>
  \<^verbatim>\<open>while (true) { ... }\<close> of \<^verbatim>\<open>handleSingleModelChat\<close>, with the variables
  \<open>excludeConnectionId\<close> and \<open>lastError\<close> and the markings made so far. The loop need
  not end; \<open>None\<close> is a run that never returns.
\<close>

partial_function (option) account_loop ::
  "'w chat_world \<Rightarrow> string \<Rightarrow> json \<Rightarrow> 'w \<Rightarrow> string option \<Rightarrow> string option \<Rightarrow> marking list
     \<Rightarrow> (chat_outcome \<times> marking list) option" where
  "account_loop W provider body w excludeConnectionId lastError marks =
     (case getProviderCredentials W w excludeConnectionId of
        None \<Rightarrow>
          (if \<not> truthy_str excludeConnectionId
           then Some (Responded (Response 400
                        (ErrorMessage (''No credentials for provider: '' @ provider))), marks)
           else Some (Responded (Response 503
                        (ErrorMessage (if truthy_str lastError then the lastError
                                       else ''All accounts unavailable''))), marks))
      | Some connectionId \<Rightarrow>
          (case attempt W w connectionId of
             (env, w1) \<Rightarrow>
               (case fst (handleChatCore env body) of
                  Success response \<Rightarrow> Some (Responded response, marks)
                | Rejected \<Rightarrow> Some (Thrown, marks)
                | Failure st err retryAfterMs \<Rightarrow>
                    (case checkFallbackError W st err of
                       (shouldFallback, cooldownMs) \<Rightarrow>
                         if shouldFallback
                         then account_loop W provider body
                                (markAccountUnavailable W w1 connectionId cooldownMs st)
                                (Some connectionId) (Some err)
                                (marks @ [(connectionId, cooldownMs, st)])
                         else Some (Responded (Response st (ErrorMessage err)), marks)))))"

definition handleSingleModelChat ::
  "'w chat_world \<Rightarrow> string option \<Rightarrow> json \<Rightarrow> 'w \<Rightarrow> (chat_outcome \<times> marking list) option" where
  "handleSingleModelChat W provider body w =
     (if \<not> truthy_str provider
      then Some (Responded (Response 400 (ErrorMessage ''Invalid model format'')), [])
      else account_loop W (the provider) body w None None [])"

text \<open>
  Sample worlds. The world is the list of connections still eligible; a marked account
  leaves it. Every attempt meets an upstream 401 and a refresh that fails. The policy is
  the one the specification gives for 401 and 403: fall back, 30 minutes.
\<close>

definition failing_env :: core_env where
  "failing_env = \<lparr>bypassResponse = None,
                  execute1 = ExecResponse \<lparr>up_status = 401, up_json = None\<rparr>,
                  refreshed = False,
                  execute2 = ExecAbort,
                  parseUpstreamError = (\<lambda>r. (up_status r, ''unauthorized'', None)),
                  formatProviderError = (\<lambda>m s. m)\<rparr>"

definition demo_world :: "string list chat_world" where
  "demo_world = \<lparr>getProviderCredentials = (\<lambda>w ex. case filter (\<lambda>c. Some c \<noteq> ex) w of [] \<Rightarrow> None | c # cs \<Rightarrow> Some c),
                 attempt = (\<lambda>w c. (failing_env, w)),
                 checkFallbackError = (\<lambda>s e. if s = 401 \<or> s = 403 then (True, 1800000) else (False, 0)),
                 markAccountUnavailable = (\<lambda>w c ms s. filter (\<lambda>x. x \<noteq> c) w)\<rparr>"

definition ok_env :: core_env where
  "ok_env = \<lparr>bypassResponse = None,
             execute1 = ExecResponse \<lparr>up_status = 200, up_json = Some (JObj [(''id'', JStr ''r1'')])\<rparr>,
             refreshed = False,
             execute2 = ExecAbort,
             parseUpstreamError = (\<lambda>r. (up_status r, ''error'', None)),
             formatProviderError = (\<lambda>m s. m)\<rparr>"

definition plain_body :: json where
  "plain_body = JObj [(''model'', JStr ''openai/gpt-4o''), (''messages'', JArr [])]"

definition nonstream_body :: json where
  "nonstream_body = JObj [(''model'', JStr ''openai/gpt-4o''), (''messages'', JArr []),
                          (''stream'', JBool False)]"

section \<open>Schema sanitizer for Gemini and Antigravity (translator/helpers/geminiHelper.js)\<close>

text \<open>
  \<^verbatim>\<open>cleanJSONSchemaForAntigravity\<close> deep-clones the schema and then mutates the clone in
  place, pass after pass. The clone is a tree (no two places hold the same object), so
  each mutating pass is a function from the tree to the new tree. Every pass has the
  same shape: it returns at once on a value that is not an array or an object, rewrites
  the node itself, and then calls itself on every member of the rewritten node that is an
  array or an object.
\<close>

subsection \<open>Library operations on JSON values\<close>

definition UNSUPPORTED_SCHEMA_CONSTRAINTS :: "string list" where
  "UNSUPPORTED_SCHEMA_CONSTRAINTS =
     [''minLength'', ''maxLength'', ''exclusiveMinimum'', ''exclusiveMaximum'',
      ''pattern'', ''minItems'', ''maxItems'', ''format'',
      ''default'', ''examples'',
      ''$schema'', ''$defs'', ''definitions'', ''const'', ''$ref'',
      ''additionalProperties'', ''propertyNames'', ''patternProperties'',
      ''anyOf'', ''oneOf'', ''allOf'', ''not'',
      ''dependencies'', ''dependentSchemas'', ''dependentRequired'',
      ''title'', ''if'', ''then'', ''else'', ''contentMediaType'', ''contentEncoding'']"

text \<open>
  The own enumerable properties of a value, as \<^verbatim>\<open>Object.keys\<close>, \<^verbatim>\<open>Object.assign\<close> and
  object spread see them: the members of an object, the elements of an array under their
  indices, the characters of a string under theirs, nothing for a number or a boolean.
\<close>

definition index_keys :: "nat \<Rightarrow> string list" where
  "index_keys n = map dec [0..<n]"

fun entries :: "json \<Rightarrow> (string \<times> json) list" where
  "entries (JObj kvs) = kvs"
| "entries (JArr xs) = zip (index_keys (length xs)) xs"
| "entries (JStr s) = zip (index_keys (length s)) (map (\<lambda>c. JStr [c]) s)"
| "entries v = []"

text \<open>\<^verbatim>\<open>Object.assign(target, source)\<close>, on the members of the target.\<close>

definition assign :: "(string \<times> json) list \<Rightarrow> (string \<times> json) list \<Rightarrow> (string \<times> json) list" where
  "assign target src = foldl (\<lambda>t kv. obj_set (fst kv) (snd kv) t) target src"

text \<open>
  \<^verbatim>\<open>[...v]\<close>: the elements of an array, the characters of a string; any other value that
  is not \<^verbatim>\<open>undefined\<close> is not iterable and the spread throws a \<^verbatim>\<open>TypeError\<close> (\<open>None\<close>).
\<close>

fun iterate :: "json \<Rightarrow> json list option" where
  "iterate (JArr xs) = Some xs"
| "iterate (JStr s) = Some (map (\<lambda>c. JStr [c]) s)"
| "iterate v = None"

text \<open>
  \<^verbatim>\<open>String(v)\<close>: an array prints its elements joined by commas, \<^verbatim>\<open>null\<close> elements as the
  empty string; an object prints as \<^verbatim>\<open>[object Object]\<close>.
\<close>

fun join_comma :: "string list \<Rightarrow> string" where
  "join_comma [] = []"
| "join_comma [s] = s"
| "join_comma (s # t # ss) = s @ '','' @ join_comma (t # ss)"

fun js_String :: "json \<Rightarrow> string"
  and js_String_elems :: "json list \<Rightarrow> string list" where
  "js_String JNull = ''null''"
| "js_String (JBool b) = (if b then ''true'' else ''false'')"
| "js_String (JNum n) = dec_int n"
| "js_String (JStr s) = s"
| "js_String (JArr xs) = join_comma (js_String_elems xs)"
| "js_String (JObj kvs) = ''[object Object]''"
| "js_String_elems [] = []"
| "js_String_elems (x # xs) = (if x = JNull then [] else js_String x) # js_String_elems xs"

text \<open>
  \<^verbatim>\<open>arr.includes(v)\<close> compares by \<^verbatim>\<open>SameValueZero\<close>: a primitive by value, an array or an
  object never equals another member of the tree.
\<close>

definition js_includes :: "json list \<Rightarrow> json \<Rightarrow> bool" where
  "js_includes xs v = (\<not> is_object v \<and> v \<in> set xs)"

text \<open>
  \<^verbatim>\<open>Object.prototype.hasOwnProperty.call(p, field)\<close> for a truthy \<open>p\<close>: the field is
  turned into a property key as \<^verbatim>\<open>String\<close> does.
\<close>

fun has_own :: "json \<Rightarrow> string \<Rightarrow> bool" where
  "has_own (JObj kvs) k = (k \<in> set (map fst kvs))"
| "has_own (JArr xs) k = (k = ''length'' \<or> k \<in> set (index_keys (length xs)))"
| "has_own (JStr s) k = (k = ''length'' \<or> k \<in> set (index_keys (length s)))"
| "has_own v k = False"

text \<open>The weight of a value bounds the recursion of the passes.\<close>

fun weight :: "json \<Rightarrow> nat" where
  "weight (JObj kvs) = 2 + sum_list (map (\<lambda>kv. weight (snd kv)) kvs)"
| "weight (JArr xs) = 1 + sum_list (map weight xs)"
| "weight v = 0"

definition sumw :: "(string \<times> json) list \<Rightarrow> nat" where
  "sumw kvs = sum_list (map (\<lambda>kv. weight (snd kv)) kvs)"

lemma weight_JObj: "weight (JObj kvs) = 2 + sumw kvs"
  by (simp add: sumw_def)

lemma weight_JArr: "weight (JArr xs) = 1 + sum_list (map weight xs)"
  by simp

declare weight.simps(1,2) [simp del]

lemma sumw_simps [simp]: "sumw [] = 0" "sumw (kv # kvs) = weight (snd kv) + sumw kvs"
  by (simp_all add: sumw_def)

lemma sumw_member: "kv \<in> set kvs \<Longrightarrow> weight (snd kv) \<le> sumw kvs"
  by (induction kvs) auto

lemma weight_member: "kv \<in> set kvs \<Longrightarrow> weight (snd kv) < weight (JObj kvs)"
  using sumw_member [of kv kvs] by (simp add: weight_JObj)

lemma weight_element_le: "x \<in> set xs \<Longrightarrow> weight x \<le> sum_list (map weight xs)"
  by (induction xs) auto

lemma weight_element: "x \<in> set xs \<Longrightarrow> weight x < weight (JArr xs)"
  using weight_element_le [of x xs] by (simp add: weight_JArr)

lemma sumw_map_of: "map_of kvs k = Some v \<Longrightarrow> weight v \<le> sumw kvs"
  using sumw_member [of "(k, v)" kvs] by (auto dest: map_of_SomeD)

lemma sumw_map_of2:
  "map_of kvs k = Some v \<Longrightarrow> map_of kvs k' = Some v' \<Longrightarrow> k \<noteq> k' \<Longrightarrow>
     weight v + weight v' \<le> sumw kvs"
proof (induction kvs)
  case Nil
  then show ?case by simp
next
  case (Cons kv kvs)
  show ?case
  proof (cases "fst kv = k")
    case True
    with Cons.prems have "snd kv = v" "map_of kvs k' = Some v'" by (auto split: if_splits)
    then show ?thesis using sumw_map_of [of kvs k' v'] by simp
  next
    case False
    show ?thesis
    proof (cases "fst kv = k'")
      case True
      with Cons.prems False have "snd kv = v'" "map_of kvs k = Some v" by (auto split: if_splits)
      then show ?thesis using sumw_map_of [of kvs k v] by simp
    next
      case f: False
      with False Cons.prems have "map_of kvs k = Some v" "map_of kvs k' = Some v'"
        by (auto split: if_splits)
      with Cons.IH Cons.prems(3) show ?thesis by simp
    qed
  qed
qed

lemma set_obj_set: "set (obj_set k v kvs) \<subseteq> insert (k, v) (set kvs)"
  by (induction kvs) (auto split: if_splits)

text \<open>Every member of a node weighs less than \<open>n\<close>.\<close>

definition vals_below :: "nat \<Rightarrow> (string \<times> json) list \<Rightarrow> bool" where
  "vals_below n kvs = (\<forall>kv \<in> set kvs. weight (snd kv) < n)"

lemma vals_below_node: "vals_below (weight (JObj kvs)) kvs"
  by (simp add: vals_below_def weight_member)

lemma vals_below_obj_set:
  "vals_below n kvs \<Longrightarrow> weight v < n \<Longrightarrow> vals_below n (obj_set k v kvs)"
  using set_obj_set [of k v kvs] by (fastforce simp add: vals_below_def)

lemma vals_below_obj_delete: "vals_below n kvs \<Longrightarrow> vals_below n (obj_delete k kvs)"
  by (simp add: vals_below_def obj_delete_def)

lemma vals_below_assign:
  "vals_below n t \<Longrightarrow> vals_below n src \<Longrightarrow> vals_below n (assign t src)"
proof (induction src arbitrary: t)
  case Nil
  then show ?case by (simp add: assign_def)
next
  case (Cons kv src)
  from Cons.prems have "vals_below n (obj_set (fst kv) (snd kv) t)"
    by (intro vals_below_obj_set) (simp_all add: vals_below_def)
  moreover from Cons.prems have "vals_below n src" by (simp add: vals_below_def)
  ultimately have "vals_below n (assign (obj_set (fst kv) (snd kv) t) src)" by (rule Cons.IH)
  then show ?case by (simp add: assign_def)
qed

lemma vals_below_entries: "weight v < n \<Longrightarrow> vals_below n (entries v)"
proof (cases v)
  case (JObj kvs)
  assume "weight v < n"
  with JObj show ?thesis
    using weight_member [of _ kvs] by (fastforce simp add: vals_below_def)
next
  case (JArr xs)
  assume "weight v < n"
  with JArr show ?thesis
    using weight_element [of _ xs] by (fastforce simp add: vals_below_def dest: set_zip_rightD)
next
  case (JStr s)
  assume "weight v < n"
  then have "0 < n" by simp
  with JStr show ?thesis
    by (auto simp add: vals_below_def dest!: set_zip_rightD)
qed (simp_all add: vals_below_def)

subsection \<open>Phase 1: convertConstToEnum and convertEnumValuesToStrings\<close>

text \<open>
  \<^verbatim>\<open>if (obj.const !== undefined && !obj.enum) { obj.enum = [obj.const]; delete obj.const; }\<close>
\<close>

definition const_to_enum :: "(string \<times> json) list \<Rightarrow> (string \<times> json) list" where
  "const_to_enum kvs =
     (case map_of kvs ''const'' of
        Some c \<Rightarrow>
          (if \<not> truthy_opt (map_of kvs ''enum'')
           then obj_delete ''const'' (obj_set ''enum'' (JArr [c]) kvs)
           else kvs)
      | None \<Rightarrow> kvs)"

lemma const_to_enum_below: "vals_below (weight (JObj kvs)) (const_to_enum kvs)"
proof (cases "map_of kvs ''const''")
  case None
  then show ?thesis by (simp add: const_to_enum_def vals_below_node)
next
  case (Some c)
  from sumw_map_of [OF Some] have "weight (JArr [c]) < weight (JObj kvs)"
    by (simp add: weight_JObj weight_JArr)
  with Some show ?thesis
    by (simp add: const_to_enum_def vals_below_node vals_below_obj_set vals_below_obj_delete)
qed

function convertConstToEnum :: "json \<Rightarrow> json" where
  "convertConstToEnum (JObj kvs) =
     JObj (map (\<lambda>kv. (fst kv, if is_object (snd kv) then convertConstToEnum (snd kv) else snd kv))
             (const_to_enum kvs))"
| "convertConstToEnum (JArr xs) =
     JArr (map (\<lambda>x. if is_object x then convertConstToEnum x else x) xs)"
| "convertConstToEnum JNull = JNull"
| "convertConstToEnum (JBool b) = JBool b"
| "convertConstToEnum (JNum n) = JNum n"
| "convertConstToEnum (JStr s) = JStr s"
  by pat_completeness auto
termination
proof (relation "measure weight")
  fix kvs kv
  assume "kv \<in> set (const_to_enum kvs)"
  with const_to_enum_below [of kvs]
  show "(snd kv, JObj kvs) \<in> measure weight" by (simp add: vals_below_def)
qed (simp_all add: weight_element)

text \<open>\<^verbatim>\<open>if (obj.enum && Array.isArray(obj.enum)) obj.enum = obj.enum.map(v => String(v))\<close>\<close>

definition enum_to_strings :: "(string \<times> json) list \<Rightarrow> (string \<times> json) list" where
  "enum_to_strings kvs =
     (case map_of kvs ''enum'' of
        Some (JArr vs) \<Rightarrow> obj_set ''enum'' (JArr (map (\<lambda>v. JStr (js_String v)) vs)) kvs
      | _ \<Rightarrow> kvs)"

lemma weight_strings: "weight (JArr (map (\<lambda>v. JStr (f v)) vs)) = 1"
  by (induction vs) (auto simp add: weight_JArr)

lemma enum_to_strings_below: "vals_below (weight (JObj kvs)) (enum_to_strings kvs)"
proof -
  have "weight (JArr (map (\<lambda>v. JStr (js_String v)) vs)) < weight (JObj kvs)" for vs
    by (simp add: weight_strings weight_JObj)
  then show ?thesis
    by (simp add: enum_to_strings_def vals_below_node vals_below_obj_set
        split: option.splits json.splits)
qed

function convertEnumValuesToStrings :: "json \<Rightarrow> json" where
  "convertEnumValuesToStrings (JObj kvs) =
     JObj (map (\<lambda>kv. (fst kv, if is_object (snd kv) then convertEnumValuesToStrings (snd kv)
                                else snd kv))
             (enum_to_strings kvs))"
| "convertEnumValuesToStrings (JArr xs) =
     JArr (map (\<lambda>x. if is_object x then convertEnumValuesToStrings x else x) xs)"
| "convertEnumValuesToStrings JNull = JNull"
| "convertEnumValuesToStrings (JBool b) = JBool b"
| "convertEnumValuesToStrings (JNum n) = JNum n"
| "convertEnumValuesToStrings (JStr s) = JStr s"
  by pat_completeness auto
termination
proof (relation "measure weight")
  fix kvs kv
  assume "kv \<in> set (enum_to_strings kvs)"
  with enum_to_strings_below [of kvs]
  show "(snd kv, JObj kvs) \<in> measure weight" by (simp add: vals_below_def)
qed (simp_all add: weight_element)

subsection \<open>Phase 2: mergeAllOf, flattenAnyOfOneOf, flattenTypeArrays\<close>

text \<open>
  \<^verbatim>\<open>for (const req of item.required) if (!merged.required.includes(req)) merged.required.push(req)\<close>
\<close>

fun push_new :: "json list \<Rightarrow> json list \<Rightarrow> json list" where
  "push_new acc [] = acc"
| "push_new acc (r # rs) = push_new (if js_includes acc r then acc else acc @ [r]) rs"

text \<open>
  The loop over \<^verbatim>\<open>obj.allOf\<close> with the local object \<open>merged\<close>, whose two properties are
  absent at first. An item that is \<^verbatim>\<open>null\<close> makes \<^verbatim>\<open>item.properties\<close> throw.
\<close>

fun merge_items ::
  "json list \<Rightarrow> (string \<times> json) list option \<times> json list option
     \<Rightarrow> ((string \<times> json) list option \<times> json list option) option" where
  "merge_items [] m = Some m"
| "merge_items (item # items) m =
     (if item = JNull then None
      else
        (let m_properties =
               (if truthy_opt (get_prop item ''properties'')
                then Some (assign (case fst m of None \<Rightarrow> [] | Some t \<Rightarrow> t)
                                  (entries (the (get_prop item ''properties''))))
                else fst m);
             m_required =
               (case get_prop item ''required'' of
                  Some (JArr rs) \<Rightarrow> Some (push_new (case snd m of None \<Rightarrow> [] | Some a \<Rightarrow> a) rs)
                | _ \<Rightarrow> snd m)
         in merge_items items (m_properties, m_required)))"

text \<open>\<^verbatim>\<open>{...v}\<close> and \<^verbatim>\<open>[...(v || [])]\<close> for a property \<open>v\<close> that may be absent.\<close>

definition spread :: "json option \<Rightarrow> (string \<times> json) list" where
  "spread v = (case v of None \<Rightarrow> [] | Some x \<Rightarrow> entries x)"

definition spread_or_empty :: "json option \<Rightarrow> json list option" where
  "spread_or_empty v = (if truthy_opt v then iterate (the v) else Some [])"

text \<open>
  The node step of \<^verbatim>\<open>mergeAllOf\<close>; \<open>None\<close> when it throws.
  \<^verbatim>\<open>delete obj.allOf;\<close>
  \<^verbatim>\<open>if (merged.properties) obj.properties = { ...obj.properties, ...merged.properties };\<close>
  \<^verbatim>\<open>if (merged.required) obj.required = [...(obj.required || []), ...merged.required];\<close>
\<close>

definition merge_allOf :: "(string \<times> json) list \<Rightarrow> (string \<times> json) list option" where
  "merge_allOf kvs =
     (case map_of kvs ''allOf'' of
        Some (JArr items) \<Rightarrow>
          (case merge_items items (None, None) of
             None \<Rightarrow> None
           | Some m \<Rightarrow>
               (let kvs1 = obj_delete ''allOf'' kvs;
                    kvs2 = (case fst m of
                              None \<Rightarrow> kvs1
                            | Some t \<Rightarrow>
                                obj_set ''properties''
                                  (JObj (assign (spread (map_of kvs1 ''properties'')) t)) kvs1)
                in (case snd m of
                      None \<Rightarrow> Some kvs2
                    | Some a \<Rightarrow>
                        (case spread_or_empty (map_of kvs2 ''required'') of
                           None \<Rightarrow> None
                         | Some olds \<Rightarrow> Some (obj_set ''required'' (JArr (olds @ a)) kvs2)))))
      | _ \<Rightarrow> Some kvs)"

text \<open>All members of a list are there, or one throw makes the whole throw.\<close>

fun all_some :: "'a option list \<Rightarrow> 'a list option" where
  "all_some [] = Some []"
| "all_some (x # xs) =
     (case x of None \<Rightarrow> None
      | Some v \<Rightarrow> (case all_some xs of None \<Rightarrow> None | Some vs \<Rightarrow> Some (v # vs)))"

lemma sumw_obj_set: "sumw (obj_set k v kvs) \<le> sumw kvs + weight v"
  by (induction kvs) auto

lemma sumw_assign: "sumw (assign t src) \<le> sumw t + sumw src"
proof (induction src arbitrary: t)
  case Nil
  then show ?case by (simp add: assign_def)
next
  case (Cons kv src)
  have "sumw (assign (obj_set (fst kv) (snd kv) t) src)
          \<le> sumw (obj_set (fst kv) (snd kv) t) + sumw src" by (rule Cons.IH)
  also have "\<dots> \<le> sumw t + weight (snd kv) + sumw src"
    using sumw_obj_set [of "fst kv" "snd kv" t] by simp
  finally show ?case by (simp add: assign_def)
qed

lemma sumw_zip: "sumw (zip ks xs) \<le> sum_list (map weight xs)"
proof (induction xs arbitrary: ks)
  case Nil
  then show ?case by simp
next
  case (Cons x xs)
  then show ?case by (cases ks) (auto intro: le_trans)
qed

lemma sumw_zip_strings: "sumw (zip ks (map (\<lambda>c. JStr [c]) s)) = 0"
proof (induction s arbitrary: ks)
  case Nil
  then show ?case by simp
next
  case (Cons c s)
  then show ?case by (cases ks) auto
qed

lemma sumw_entries: "sumw (entries v) \<le> weight v"
proof (cases v)
  case (JArr xs)
  then show ?thesis using sumw_zip [of "index_keys (length xs)" xs] by (simp add: weight_JArr)
next
  case (JStr s)
  then show ?thesis by (simp add: sumw_zip_strings)
qed (simp_all add: weight_JObj)

lemma weight_get_prop: "get_prop item k = Some p \<Longrightarrow> weight p \<le> weight item"
  by (cases item) (auto simp add: weight_JObj dest: sumw_map_of)

lemma sum_push_new:
  "sum_list (map weight (push_new acc rs)) \<le> sum_list (map weight acc) + sum_list (map weight rs)"
proof (induction rs arbitrary: acc)
  case Nil
  then show ?case by simp
next
  case (Cons r rs)
  have "sum_list (map weight (push_new (if js_includes acc r then acc else acc @ [r]) rs))
          \<le> sum_list (map weight (if js_includes acc r then acc else acc @ [r]))
             + sum_list (map weight rs)" by (rule Cons.IH)
  then show ?case by (auto split: if_splits)
qed

definition sw :: "(string \<times> json) list option \<Rightarrow> nat" where
  "sw mp = (case mp of None \<Rightarrow> 0 | Some t \<Rightarrow> sumw t)"

definition sl :: "json list option \<Rightarrow> nat" where
  "sl mr = (case mr of None \<Rightarrow> 0 | Some a \<Rightarrow> sum_list (map weight a))"

lemma merge_items_weight:
  "merge_items items m = Some m' \<Longrightarrow>
     sw (fst m') \<le> sw (fst m) + sum_list (map weight items) \<and>
     sl (snd m') \<le> sl (snd m) + sum_list (map weight items)"
proof (induction items arbitrary: m)
  case Nil
  then show ?case by simp
next
  case (Cons item items)
  from Cons.prems have nn: "item \<noteq> JNull" by (auto split: if_splits)
  let ?mp = "(if truthy_opt (get_prop item ''properties'')
                then Some (assign (case fst m of None \<Rightarrow> [] | Some t \<Rightarrow> t)
                                  (entries (the (get_prop item ''properties''))))
                else fst m)"
  let ?mr = "(case get_prop item ''required'' of
                  Some (JArr rs) \<Rightarrow> Some (push_new (case snd m of None \<Rightarrow> [] | Some a \<Rightarrow> a) rs)
                | _ \<Rightarrow> snd m)"
  from Cons.prems nn have rec: "merge_items items (?mp, ?mr) = Some m'"
    by (simp add: Let_def)
  have p: "sw ?mp \<le> sw (fst m) + weight item"
  proof (cases "truthy_opt (get_prop item ''properties'')")
    case True
    then obtain p where p: "get_prop item ''properties'' = Some p"
      by (auto simp add: truthy_opt_def split: option.splits)
    have "sumw (assign (case fst m of None \<Rightarrow> [] | Some t \<Rightarrow> t) (entries p))
            \<le> sumw (case fst m of None \<Rightarrow> [] | Some t \<Rightarrow> t) + sumw (entries p)"
      by (rule sumw_assign)
    also have "\<dots> \<le> sw (fst m) + weight item"
      using sumw_entries [of p] weight_get_prop [OF p]
      by (auto simp add: sw_def split: option.splits)
    finally show ?thesis using True p by (simp add: sw_def)
  next
    case False
    then show ?thesis by simp
  qed
  have r: "sl ?mr \<le> sl (snd m) + weight item"
  proof (cases "\<exists>rs. get_prop item ''required'' = Some (JArr rs)")
    case True
    then obtain rs where rs: "get_prop item ''required'' = Some (JArr rs)" by blast
    have "sum_list (map weight (push_new (case snd m of None \<Rightarrow> [] | Some a \<Rightarrow> a) rs))
            \<le> sum_list (map weight (case snd m of None \<Rightarrow> [] | Some a \<Rightarrow> a))
               + sum_list (map weight rs)"
      by (rule sum_push_new)
    also have "\<dots> \<le> sl (snd m) + weight item"
      using weight_get_prop [OF rs]
      by (auto simp add: sl_def weight_JArr split: option.splits)
    finally show ?thesis using rs by (simp add: sl_def)
  next
    case False
    then show ?thesis by (auto split: option.splits json.splits)
  qed
  from Cons.IH [OF rec] p r show ?case by simp
qed

lemma sum_iterate:
  "iterate v = Some xs \<Longrightarrow> sum_list (map weight xs) \<le> weight v"
  by (cases v) (auto simp add: weight_JArr comp_def)

lemma merge_allOf_below:
  assumes "merge_allOf kvs = Some kvs'"
  shows "vals_below (weight (JObj kvs)) kvs'"
proof (cases "\<exists>items. map_of kvs ''allOf'' = Some (JArr items)")
  case False
  with assms have "kvs' = kvs"
    by (auto simp add: merge_allOf_def split: option.splits json.splits)
  then show ?thesis by (simp add: vals_below_node)
next
  case True
  then obtain items where items: "map_of kvs ''allOf'' = Some (JArr items)" by blast
  let ?N = "weight (JObj kvs)"
  let ?S = "sum_list (map weight items)"
  from assms items obtain m where m: "merge_items items (None, None) = Some m"
    by (auto simp add: merge_allOf_def split: option.splits)
  from merge_items_weight [OF m] have mw: "sw (fst m) \<le> ?S" "sl (snd m) \<le> ?S"
    by (simp_all add: sw_def sl_def)
  let ?kvs1 = "obj_delete ''allOf'' kvs"
  let ?kvs2 = "(case fst m of
                  None \<Rightarrow> ?kvs1
                | Some t \<Rightarrow>
                    obj_set ''properties''
                      (JObj (assign (spread (map_of ?kvs1 ''properties'')) t)) ?kvs1)"
  have p1: "map_of ?kvs1 ''properties'' = map_of kvs ''properties''"
    by (induction kvs) (auto simp add: obj_delete_def)
  have b1: "vals_below ?N ?kvs1" by (simp add: vals_below_node vals_below_obj_delete)
  have sp: "sumw (spread (map_of kvs ''properties'')) + weight (JArr items) \<le> sumw kvs"
  proof (cases "map_of kvs ''properties''")
    case None
    with sumw_map_of [OF items] show ?thesis by (simp add: spread_def)
  next
    case (Some old)
    from sumw_map_of2 [OF Some items] sumw_entries [of old] Some
    show ?thesis by (simp add: spread_def)
  qed
  have b2: "vals_below ?N ?kvs2"
  proof (cases "fst m")
    case None
    with b1 show ?thesis by simp
  next
    case (Some t)
    have "sumw (assign (spread (map_of kvs ''properties'')) t)
            \<le> sumw (spread (map_of kvs ''properties'')) + sumw t" by (rule sumw_assign)
    with mw(1) Some sp
    have "weight (JObj (assign (spread (map_of ?kvs1 ''properties'')) t)) < ?N"
      by (simp add: weight_JObj weight_JArr sw_def p1)
    with b1 Some show ?thesis by (simp add: vals_below_obj_set)
  qed
  show ?thesis
  proof (cases "snd m")
    case None
    with assms items m b2 show ?thesis by (simp add: merge_allOf_def Let_def)
  next
    case (Some a)
    with assms items m obtain olds where
      olds: "spread_or_empty (map_of ?kvs2 ''required'') = Some olds"
      and k: "kvs' = obj_set ''required'' (JArr (olds @ a)) ?kvs2"
      by (auto simp add: merge_allOf_def Let_def split: option.splits)
    have r2: "map_of ?kvs2 ''required'' = map_of kvs ''required''"
    proof -
      have "map_of ?kvs1 ''required'' = map_of kvs ''required''"
        by (induction kvs) (auto simp add: obj_delete_def)
      moreover have "map_of (obj_set ''properties'' v xs) ''required'' = map_of xs ''required''"
        for v and xs :: "(string \<times> json) list"
        by (induction xs) auto
      ultimately show ?thesis by (simp split: option.splits)
    qed
    have so: "sum_list (map weight olds) + weight (JArr items) \<le> sumw kvs"
    proof (cases "truthy_opt (map_of kvs ''required'')")
      case False
      with olds r2 have "olds = []" by (simp add: spread_or_empty_def)
      with sumw_map_of [OF items] show ?thesis by simp
    next
      case True
      then obtain old where old: "map_of kvs ''required'' = Some old"
        by (auto simp add: truthy_opt_def split: option.splits)
      with olds r2 True have "iterate old = Some olds" by (simp add: spread_or_empty_def)
      from sum_iterate [OF this] sumw_map_of2 [OF old items] show ?thesis by simp
    qed
    from mw(2) Some so have "weight (JArr (olds @ a)) < ?N"
      by (simp add: weight_JObj weight_JArr sl_def)
    with b2 k show ?thesis by (simp add: vals_below_obj_set)
  qed
qed

function mergeAllOf :: "json \<Rightarrow> json option" where
  "mergeAllOf (JObj kvs) =
     (case merge_allOf kvs of
        None \<Rightarrow> None
      | Some kvs' \<Rightarrow>
          (case all_some (map (\<lambda>kv. if is_object (snd kv)
                                     then (case mergeAllOf (snd kv) of
                                             None \<Rightarrow> None
                                           | Some v \<Rightarrow> Some (fst kv, v))
                                     else Some kv) kvs') of
             None \<Rightarrow> None
           | Some kvs'' \<Rightarrow> Some (JObj kvs'')))"
| "mergeAllOf (JArr xs) =
     (case all_some (map (\<lambda>x. if is_object x then mergeAllOf x else Some x) xs) of
        None \<Rightarrow> None
      | Some xs' \<Rightarrow> Some (JArr xs'))"
| "mergeAllOf JNull = Some JNull"
| "mergeAllOf (JBool b) = Some (JBool b)"
| "mergeAllOf (JNum n) = Some (JNum n)"
| "mergeAllOf (JStr s) = Some (JStr s)"
  by pat_completeness auto
termination
proof (relation "measure weight")
  fix kvs kvs' kv
  assume "merge_allOf kvs = Some kvs'" "kv \<in> set kvs'"
  with merge_allOf_below [of kvs kvs']
  show "(snd kv, JObj kvs) \<in> measure weight" by (simp add: vals_below_def)
qed (simp_all add: weight_element)

text \<open>
  \<^verbatim>\<open>selectBest(items)\<close>: 3 for an object schema, 2 for an array schema, 1 for any other
  type that is not \<^verbatim>\<open>"null"\<close>, 0 otherwise; the first item with the highest score.
\<close>

definition score :: "json \<Rightarrow> int" where
  "score item =
     (let ty = get_prop item ''type''
      in if ty = Some (JStr ''object'') \<or> truthy_opt (get_prop item ''properties'') then 3
         else if ty = Some (JStr ''array'') \<or> truthy_opt (get_prop item ''items'') then 2
         else if truthy_opt ty \<and> ty \<noteq> Some (JStr ''null'') then 1
         else 0)"

fun select_from :: "json list \<Rightarrow> nat \<Rightarrow> nat \<Rightarrow> int \<Rightarrow> nat" where
  "select_from [] i bestIdx bestScore = bestIdx"
| "select_from (item # items) i bestIdx bestScore =
     (if score item > bestScore then select_from items (i + 1) i (score item)
      else select_from items (i + 1) bestIdx bestScore)"

definition selectBest :: "json list \<Rightarrow> nat" where
  "selectBest items = select_from items 0 0 (- 1)"

text \<open>
  One of the two blocks of \<^verbatim>\<open>flattenAnyOfOneOf\<close>, for the key \<^verbatim>\<open>anyOf\<close> or \<^verbatim>\<open>oneOf\<close>:
  \<^verbatim>\<open>if (obj[key] && Array.isArray(obj[key]) && obj[key].length > 0) {\<close>
  \<^verbatim>\<open>  const nonNullSchemas = obj[key].filter(s => s && s.type !== "null");\<close>
  \<^verbatim>\<open>  if (nonNullSchemas.length > 0) { ...; delete obj[key]; Object.assign(obj, selected); } }\<close>
\<close>

definition non_null_schema :: "json \<Rightarrow> bool" where
  "non_null_schema s = (truthy s \<and> get_prop s ''type'' \<noteq> Some (JStr ''null''))"

definition flatten_key :: "string \<Rightarrow> (string \<times> json) list \<Rightarrow> (string \<times> json) list" where
  "flatten_key key kvs =
     (case map_of kvs key of
        Some (JArr branches) \<Rightarrow>
          (let nonNullSchemas = filter non_null_schema branches
           in if nonNullSchemas \<noteq> []
              then assign (obj_delete key kvs) (entries (nonNullSchemas ! selectBest nonNullSchemas))
              else kvs)
      | _ \<Rightarrow> kvs)"

definition flatten_node :: "(string \<times> json) list \<Rightarrow> (string \<times> json) list" where
  "flatten_node kvs = flatten_key ''oneOf'' (flatten_key ''anyOf'' kvs)"

lemma select_from_bound:
  "select_from items i bestIdx bestScore = bestIdx \<or>
   (i \<le> select_from items i bestIdx bestScore \<and>
    select_from items i bestIdx bestScore < i + length items)"
proof (induction items arbitrary: i bestIdx bestScore)
  case Nil
  then show ?case by simp
next
  case (Cons item items)
  show ?case
  proof (cases "score item > bestScore")
    case True
    with Cons.IH [of "i + 1" i "score item"] show ?thesis by auto
  next
    case False
    with Cons.IH [of "i + 1" bestIdx bestScore] show ?thesis by auto
  qed
qed

lemma selectBest_bound: "items \<noteq> [] \<Longrightarrow> selectBest items < length items"
  using select_from_bound [of items 0 0 "- 1"] by (auto simp add: selectBest_def)

lemma flatten_key_below:
  assumes "vals_below n kvs"
  shows "vals_below n (flatten_key key kvs)"
proof (cases "\<exists>branches. map_of kvs key = Some (JArr branches)")
  case False
  with assms show ?thesis by (auto simp add: flatten_key_def split: option.splits json.splits)
next
  case True
  then obtain branches where b: "map_of kvs key = Some (JArr branches)" by blast
  let ?nn = "filter non_null_schema branches"
  show ?thesis
  proof (cases "?nn = []")
    case True
    with b assms show ?thesis by (simp add: flatten_key_def)
  next
    case False
    then have "?nn ! selectBest ?nn \<in> set ?nn"
      by (intro nth_mem selectBest_bound)
    then have "?nn ! selectBest ?nn \<in> set branches" by simp
    then have "weight (?nn ! selectBest ?nn) < weight (JArr branches)" by (rule weight_element)
    moreover from b assms have "weight (JArr branches) < n"
      by (auto simp add: vals_below_def dest!: map_of_SomeD)
    ultimately have "vals_below n (entries (?nn ! selectBest ?nn))"
      by (intro vals_below_entries) simp
    with assms b False show ?thesis
      by (simp add: flatten_key_def Let_def vals_below_assign vals_below_obj_delete)
  qed
qed

function flattenAnyOfOneOf :: "json \<Rightarrow> json" where
  "flattenAnyOfOneOf (JObj kvs) =
     JObj (map (\<lambda>kv. (fst kv, if is_object (snd kv) then flattenAnyOfOneOf (snd kv) else snd kv))
             (flatten_node kvs))"
| "flattenAnyOfOneOf (JArr xs) =
     JArr (map (\<lambda>x. if is_object x then flattenAnyOfOneOf x else x) xs)"
| "flattenAnyOfOneOf JNull = JNull"
| "flattenAnyOfOneOf (JBool b) = JBool b"
| "flattenAnyOfOneOf (JNum n) = JNum n"
| "flattenAnyOfOneOf (JStr s) = JStr s"
  by pat_completeness auto
termination
proof (relation "measure weight")
  fix kvs kv
  assume "kv \<in> set (flatten_node kvs)"
  moreover have "vals_below (weight (JObj kvs)) (flatten_node kvs)"
    unfolding flatten_node_def by (intro flatten_key_below vals_below_node)
  ultimately show "(snd kv, JObj kvs) \<in> measure weight" by (simp add: vals_below_def)
qed (simp_all add: weight_element)

text \<open>
  \<^verbatim>\<open>if (obj.type && Array.isArray(obj.type)) {\<close>
  \<^verbatim>\<open>  const nonNullTypes = obj.type.filter(t => t !== "null");\<close>
  \<^verbatim>\<open>  obj.type = nonNullTypes.length > 0 ? nonNullTypes[0] : "string"; }\<close>
\<close>

definition flatten_type :: "(string \<times> json) list \<Rightarrow> (string \<times> json) list" where
  "flatten_type kvs =
     (case map_of kvs ''type'' of
        Some (JArr ts) \<Rightarrow>
          (case filter (\<lambda>t. t \<noteq> JStr ''null'') ts of
             [] \<Rightarrow> obj_set ''type'' (JStr ''string'') kvs
           | t # rest \<Rightarrow> obj_set ''type'' t kvs)
      | _ \<Rightarrow> kvs)"

lemma flatten_type_below: "vals_below (weight (JObj kvs)) (flatten_type kvs)"
proof (cases "\<exists>ts. map_of kvs ''type'' = Some (JArr ts)")
  case False
  then show ?thesis
    by (auto simp add: flatten_type_def vals_below_node split: option.splits json.splits)
next
  case True
  then obtain ts where ts: "map_of kvs ''type'' = Some (JArr ts)" by blast
  from sumw_map_of [OF ts] have a: "weight (JArr ts) < weight (JObj kvs)"
    by (simp add: weight_JObj)
  show ?thesis
  proof (cases "filter (\<lambda>t. t \<noteq> JStr ''null'') ts")
    case Nil
    have "weight (JStr ''string'') < weight (JObj kvs)" by (simp add: weight_JObj)
    with ts Nil show ?thesis
      by (simp add: flatten_type_def vals_below_node vals_below_obj_set)
  next
    case (Cons t rest)
    then have "t \<in> set (filter (\<lambda>t. t \<noteq> JStr ''null'') ts)" by simp
    then have "t \<in> set ts" by simp
    from weight_element [OF this] a have "weight t < weight (JObj kvs)" by simp
    with ts Cons show ?thesis
      by (simp add: flatten_type_def vals_below_node vals_below_obj_set)
  qed
qed

function flattenTypeArrays :: "json \<Rightarrow> json" where
  "flattenTypeArrays (JObj kvs) =
     JObj (map (\<lambda>kv. (fst kv, if is_object (snd kv) then flattenTypeArrays (snd kv) else snd kv))
             (flatten_type kvs))"
| "flattenTypeArrays (JArr xs) =
     JArr (map (\<lambda>x. if is_object x then flattenTypeArrays x else x) xs)"
| "flattenTypeArrays JNull = JNull"
| "flattenTypeArrays (JBool b) = JBool b"
| "flattenTypeArrays (JNum n) = JNum n"
| "flattenTypeArrays (JStr s) = JStr s"
  by pat_completeness auto
termination
proof (relation "measure weight")
  fix kvs kv
  assume "kv \<in> set (flatten_type kvs)"
  with flatten_type_below [of kvs]
  show "(snd kv, JObj kvs) \<in> measure weight" by (simp add: vals_below_def)
qed (simp_all add: weight_element)

subsection \<open>Phase 3: removing the unsupported keywords\<close>

text \<open>
  \<^verbatim>\<open>walkAndCollectPaths(obj, currentPath, targetKey, paths)\<close>: the paths pushed, in order.
  An array element extends the path by \<^verbatim>\<open>[index]\<close>, an object member by \<^verbatim>\<open>.key\<close>, and
  an empty path is replaced rather than extended.
\<close>

fun walkAndCollectPaths :: "json \<Rightarrow> string \<Rightarrow> string \<Rightarrow> string list"
  and walk_items :: "json list \<Rightarrow> nat \<Rightarrow> string \<Rightarrow> string \<Rightarrow> string list"
  and walk_members :: "(string \<times> json) list \<Rightarrow> string \<Rightarrow> string \<Rightarrow> string list" where
  "walkAndCollectPaths (JArr xs) currentPath targetKey = walk_items xs 0 currentPath targetKey"
| "walkAndCollectPaths (JObj kvs) currentPath targetKey = walk_members kvs currentPath targetKey"
| "walkAndCollectPaths JNull currentPath targetKey = []"
| "walkAndCollectPaths (JBool b) currentPath targetKey = []"
| "walkAndCollectPaths (JNum n) currentPath targetKey = []"
| "walkAndCollectPaths (JStr s) currentPath targetKey = []"
| "walk_items [] index currentPath targetKey = []"
| "walk_items (item # items) index currentPath targetKey =
     walkAndCollectPaths item
       (if currentPath \<noteq> [] then currentPath @ ''['' @ dec index @ '']''
        else ''['' @ dec index @ '']'')
       targetKey
     @ walk_items items (index + 1) currentPath targetKey"
| "walk_members [] currentPath targetKey = []"
| "walk_members (kv # kvs) currentPath targetKey =
     (if fst kv = targetKey
      then [if currentPath \<noteq> [] then currentPath @ ''.'' @ fst kv else fst kv]
      else [])
     @ (if is_object (snd kv)
        then walkAndCollectPaths (snd kv)
               (if currentPath \<noteq> [] then currentPath @ ''.'' @ fst kv else fst kv) targetKey
        else [])
     @ walk_members kvs currentPath targetKey"

text \<open>\<^verbatim>\<open>path.split(".")\<close>: never empty, \<^verbatim>\<open>"".split(".")\<close> is \<^verbatim>\<open>[""]\<close>.\<close>

fun split_dot :: "string \<Rightarrow> string list" where
  "split_dot [] = [[]]"
| "split_dot (c # cs) =
     (if c = CHR ''.'' then [] # split_dot cs
      else (case split_dot cs of
              [] \<Rightarrow> [[c]]
            | p # ps \<Rightarrow> (c # p) # ps))"

text \<open>
  \<^verbatim>\<open>current[part]\<close> while walking down a path, for a member that is itself part of the
  tree: a member of an object, or an element of an array under its index. Anything else
  that \<^verbatim>\<open>current[part]\<close> may yield (a length, a character, an inherited property) leads
  to no change of the tree and is \<open>None\<close> here, as is a missing member.
\<close>

fun tree_member :: "json \<Rightarrow> string \<Rightarrow> json option" where
  "tree_member (JObj kvs) part = map_of kvs part"
| "tree_member (JArr xs) part =
     (case List.find (\<lambda>i. dec i = part) [0..<length xs] of
        None \<Rightarrow> None
      | Some i \<Rightarrow> Some (xs ! i))"
| "tree_member v part = None"

fun put_member :: "string \<Rightarrow> json \<Rightarrow> json \<Rightarrow> json" where
  "put_member part child (JObj kvs) = JObj (obj_set part child kvs)"
| "put_member part child (JArr xs) =
     (case List.find (\<lambda>i. dec i = part) [0..<length xs] of
        None \<Rightarrow> JArr xs
      | Some i \<Rightarrow> JArr (xs[i := child]))"
| "put_member part child v = v"

text \<open>
  \<^verbatim>\<open>delete current[lastKey]\<close>. The last part of a collected path is always the keyword,
  which is no index, so on an array (or a primitive) nothing is deleted.
\<close>

fun delete_member :: "string \<Rightarrow> json \<Rightarrow> json" where
  "delete_member lastKey (JObj kvs) = JObj (obj_delete lastKey kvs)"
| "delete_member lastKey v = v"

text \<open>
  \<^verbatim>\<open>deleteAtPath(obj, path)\<close>: walk down all parts but the last, returning at the first
  falsy \<^verbatim>\<open>current[part]\<close>, then delete the last part. The mutation of a member shows in
  the tree as the member replaced.
\<close>

fun delete_parts :: "string list \<Rightarrow> json \<Rightarrow> json" where
  "delete_parts [] current = current"
| "delete_parts [lastKey] current = delete_member lastKey current"
| "delete_parts (part # rest) current =
     (case tree_member current part of
        None \<Rightarrow> current
      | Some child \<Rightarrow>
          (if truthy child then put_member part (delete_parts rest child) current
           else current))"

definition deleteAtPath :: "json \<Rightarrow> string \<Rightarrow> json" where
  "deleteAtPath obj path = delete_parts (split_dot path) obj"

text \<open>
  One turn of \<^verbatim>\<open>for (const keyword of UNSUPPORTED_SCHEMA_CONSTRAINTS)\<close>: collect, sort the
  deepest paths first (\<^verbatim>\<open>Array.prototype.sort\<close> is stable), delete each.
\<close>

definition remove_keyword :: "string \<Rightarrow> json \<Rightarrow> json" where
  "remove_keyword keyword cleaned =
     foldl deleteAtPath cleaned
       (sort_key (\<lambda>p. - int (length (split_dot p))) (walkAndCollectPaths cleaned [] keyword))"

definition remove_unsupported :: "json \<Rightarrow> json" where
  "remove_unsupported cleaned = foldl (\<lambda>c keyword. remove_keyword keyword c) cleaned UNSUPPORTED_SCHEMA_CONSTRAINTS"

subsection \<open>Phase 4: cleanupRequired\<close>

text \<open>
  \<^verbatim>\<open>if (obj.required && Array.isArray(obj.required) && obj.properties) {\<close>
  \<^verbatim>\<open>  const validRequired = obj.required.filter(field => hasOwnProperty.call(obj.properties, field));\<close>
  \<^verbatim>\<open>  if (validRequired.length === 0) delete obj.required; else obj.required = validRequired; }\<close>
\<close>

definition cleanup_required :: "(string \<times> json) list \<Rightarrow> (string \<times> json) list" where
  "cleanup_required kvs =
     (case map_of kvs ''required'' of
        Some (JArr names) \<Rightarrow>
          (if truthy_opt (map_of kvs ''properties'') then
             (let validRequired =
                    filter (\<lambda>field. has_own (the (map_of kvs ''properties'')) (js_String field)) names
              in if validRequired = [] then obj_delete ''required'' kvs
                 else obj_set ''required'' (JArr validRequired) kvs)
           else kvs)
      | _ \<Rightarrow> kvs)"

lemma weight_filter: "weight (JArr (filter P xs)) \<le> weight (JArr xs)"
  by (induction xs) (auto simp add: weight_JArr)

lemma cleanup_required_below: "vals_below (weight (JObj kvs)) (cleanup_required kvs)"
proof (cases "\<exists>names. map_of kvs ''required'' = Some (JArr names)")
  case False
  then show ?thesis
    by (auto simp add: cleanup_required_def vals_below_node split: option.splits json.splits)
next
  case True
  then obtain names where f: "map_of kvs ''required'' = Some (JArr names)" by blast
  from sumw_map_of [OF f] have "weight (JArr names) < weight (JObj kvs)"
    by (simp add: weight_JObj)
  with weight_filter [of _ names] have "weight (JArr (filter P names)) < weight (JObj kvs)" for P
    by (rule le_less_trans)
  with f show ?thesis
    by (simp add: cleanup_required_def Let_def vals_below_node vals_below_obj_set
        vals_below_obj_delete)
qed

function cleanupRequired :: "json \<Rightarrow> json" where
  "cleanupRequired (JObj kvs) =
     JObj (map (\<lambda>kv. (fst kv, if is_object (snd kv) then cleanupRequired (snd kv) else snd kv))
             (cleanup_required kvs))"
| "cleanupRequired (JArr xs) =
     JArr (map (\<lambda>x. if is_object x then cleanupRequired x else x) xs)"
| "cleanupRequired JNull = JNull"
| "cleanupRequired (JBool b) = JBool b"
| "cleanupRequired (JNum n) = JNum n"
| "cleanupRequired (JStr s) = JStr s"
  by pat_completeness auto
termination
proof (relation "measure weight")
  fix kvs kv
  assume "kv \<in> set (cleanup_required kvs)"
  with cleanup_required_below [of kvs]
  show "(snd kv, JObj kvs) \<in> measure weight" by (simp add: vals_below_def)
qed (simp_all add: weight_element)

subsection \<open>Phase 5: addPlaceholders\<close>

text \<open>
  \<^verbatim>\<open>if (obj.type === "object") {\<close>
  \<^verbatim>\<open>  if (!obj.properties || Object.keys(obj.properties).length === 0) {\<close>
  \<^verbatim>\<open>    obj.properties = { reason: { type: "string", description: "..." } };\<close>
  \<^verbatim>\<open>    obj.required = ["reason"]; } }\<close>
\<close>

definition reason_placeholder :: json where
  "reason_placeholder =
     JObj [(''reason'',
            JObj [(''type'', JStr ''string''),
                  (''description'', JStr ''Brief explanation of why you are calling this tool'')])]"

definition needs_placeholder :: "(string \<times> json) list \<Rightarrow> bool" where
  "needs_placeholder kvs =
     (map_of kvs ''type'' = Some (JStr ''object'') \<and>
      (\<not> truthy_opt (map_of kvs ''properties'') \<or>
       entries (the (map_of kvs ''properties'')) = []))"

definition add_placeholder :: "(string \<times> json) list \<Rightarrow> (string \<times> json) list" where
  "add_placeholder kvs =
     (if needs_placeholder kvs
      then obj_set ''required'' (JArr [JStr ''reason''])
             (obj_set ''properties'' reason_placeholder kvs)
      else kvs)"

text \<open>
  The recursion of \<^verbatim>\<open>addPlaceholders\<close> also enters the placeholder it has just written.
  Its measure counts a node that is still to receive one as heavier than the placeholder.
\<close>

fun weight_ph :: "json \<Rightarrow> nat" where
  "weight_ph (JObj kvs) =
     2 + sum_list (map (\<lambda>kv. weight_ph (snd kv)) kvs) + (if needs_placeholder kvs then 8 else 0)"
| "weight_ph (JArr xs) = 1 + sum_list (map weight_ph xs)"
| "weight_ph v = 0"

lemma weight_ph_member: "kv \<in> set kvs \<Longrightarrow> weight_ph (snd kv) < weight_ph (JObj kvs)"
proof -
  assume "kv \<in> set kvs"
  then have "weight_ph (snd kv) \<le> sum_list (map (\<lambda>kv. weight_ph (snd kv)) kvs)"
    by (induction kvs) auto
  then show ?thesis by simp
qed

lemma weight_ph_element: "x \<in> set xs \<Longrightarrow> weight_ph x < weight_ph (JArr xs)"
proof -
  assume "x \<in> set xs"
  then have "weight_ph x \<le> sum_list (map weight_ph xs)"
    by (induction xs) auto
  then show ?thesis by simp
qed

lemma add_placeholder_members:
  assumes "kv \<in> set (add_placeholder kvs)"
  shows "weight_ph (snd kv) < weight_ph (JObj kvs)"
proof (cases "needs_placeholder kvs")
  case False
  with assms have "kv \<in> set kvs" by (simp add: add_placeholder_def)
  then show ?thesis by (rule weight_ph_member)
next
  case True
  let ?r = "JArr [JStr ''reason'']"
  from assms True
  have "kv \<in> set (obj_set ''required'' ?r (obj_set ''properties'' reason_placeholder kvs))"
    by (simp add: add_placeholder_def)
  then have "kv = (''required'', ?r) \<or> kv \<in> set (obj_set ''properties'' reason_placeholder kvs)"
    using set_obj_set by fastforce
  then have c: "kv = (''required'', ?r) \<or> kv = (''properties'', reason_placeholder) \<or> kv \<in> set kvs"
    using set_obj_set by fastforce
  have p: "weight_ph reason_placeholder = 4"
    unfolding reason_placeholder_def by (simp add: needs_placeholder_def)
  have r: "weight_ph ?r = 1" by simp
  from True have n: "8 \<le> weight_ph (JObj kvs)" by simp
  from c show ?thesis
  proof (elim disjE)
    assume "kv = (''required'', ?r)"
    with r n show ?thesis by (simp del: weight_ph.simps)
  next
    assume "kv = (''properties'', reason_placeholder)"
    with p n show ?thesis by (simp del: weight_ph.simps)
  next
    assume "kv \<in> set kvs"
    then show ?thesis by (rule weight_ph_member)
  qed
qed

function addPlaceholders :: "json \<Rightarrow> json" where
  "addPlaceholders (JObj kvs) =
     JObj (map (\<lambda>kv. (fst kv, if is_object (snd kv) then addPlaceholders (snd kv) else snd kv))
             (add_placeholder kvs))"
| "addPlaceholders (JArr xs) =
     JArr (map (\<lambda>x. if is_object x then addPlaceholders x else x) xs)"
| "addPlaceholders JNull = JNull"
| "addPlaceholders (JBool b) = JBool b"
| "addPlaceholders (JNum n) = JNum n"
| "addPlaceholders (JStr s) = JStr s"
  by pat_completeness auto
termination
proof (relation "measure weight_ph")
  fix kvs kv
  assume "kv \<in> set (add_placeholder kvs)"
  then show "(snd kv, JObj kvs) \<in> measure weight_ph"
    by (simp add: add_placeholder_members del: weight_ph.simps)
next
  fix xs :: "json list" and x
  assume "x \<in> set xs"
  then show "(x, JArr xs) \<in> measure weight_ph"
    by (simp add: weight_ph_element del: weight_ph.simps)
qed simp

subsection \<open>cleanJSONSchemaForAntigravity\<close>

text \<open>
  \<^verbatim>\<open>if (!schema || typeof schema !== "object") return schema;\<close> The deep clone
  \<^verbatim>\<open>JSON.parse(JSON.stringify(schema))\<close> is the same JSON value; the argument itself is
  never written to. \<open>None\<close> is a \<^verbatim>\<open>TypeError\<close> thrown by \<^verbatim>\<open>mergeAllOf\<close>.
\<close>

definition cleanJSONSchemaForAntigravity :: "json \<Rightarrow> json option" where
  "cleanJSONSchemaForAntigravity schema =
     (if \<not> is_object schema then Some schema
      else
        (case mergeAllOf (convertEnumValuesToStrings (convertConstToEnum schema)) of
           None \<Rightarrow> None
         | Some merged \<Rightarrow>
             Some (addPlaceholders
                    (cleanupRequired
                      (remove_unsupported
                        (flattenTypeArrays (flattenAnyOfOneOf merged)))))))"

text \<open>
  Sample schemas. A tuple schema whose only item nests one \<^verbatim>\<open>anyOf\<close> in another; a
  node that has both \<^verbatim>\<open>const\<close> and \<^verbatim>\<open>enum\<close>; an object schema with a nullable
  property, a property named like a keyword, a constant and a stale required name.
\<close>

definition tuple_schema :: json where
  "tuple_schema =
     JObj [(''type'', JStr ''array''),
           (''items'', JArr [JObj [(''anyOf'',
              JArr [JObj [(''anyOf'', JArr [JObj [(''type'', JStr ''string'')]])]])]])]"



definition tuple_once :: json where
  "tuple_once =
     JObj [(''type'', JStr ''array''),
           (''items'', JArr [JObj [(''anyOf'', JArr [JObj [(''type'', JStr ''string'')]])]])]"

definition tuple_twice :: json where
  "tuple_twice =
     JObj [(''type'', JStr ''array''), (''items'', JArr [JObj [(''type'', JStr ''string'')]])]"

subsection \<open>Properties of a sanitized schema\<close>



text \<open>A pass applied to one member, and to all members of a node.\<close>

definition kid :: "(json \<Rightarrow> json) \<Rightarrow> json \<Rightarrow> json" where
  "kid f v = (if is_object v then f v else v)"

definition kids :: "(json \<Rightarrow> json) \<Rightarrow> (string \<times> json) list \<Rightarrow> (string \<times> json) list" where
  "kids f kvs = map (\<lambda>kv. (fst kv, kid f (snd kv))) kvs"







section \<open>Provider connections (POST /api/providers)\<close>

text \<open>
  The route handler reads and writes the local database through the functions of
  \<^verbatim>\<open>@/models\<close>. The database is a value of any type \<open>'s\<close>; these functions and the
  two provider tables are parameters. A read yields \<open>None\<close> when it throws; creating a
  connection yields the database afterwards and the new connection, or \<open>None\<close> when it
  throws. Requests are handled one at a time.
\<close>

record 's providers_env =
  APIKEY_PROVIDERS :: "json \<Rightarrow> bool"
  isOpenAICompatibleProvider :: "json \<Rightarrow> bool"
  getProviderNodeById :: "'s \<Rightarrow> json \<Rightarrow> json option"
  getProviderConnections :: "'s \<Rightarrow> json \<Rightarrow> json list option"
  createProviderConnection :: "'s \<Rightarrow> json \<Rightarrow> 's \<times> json option"
  syncToCloudIfEnabled :: "'s \<Rightarrow> 's"

text \<open>\<^verbatim>\<open>NextResponse.json(body, { status })\<close>\<close>

datatype next_response = NextResponse nat json

fun response_status :: "next_response \<Rightarrow> nat" where
  "response_status (NextResponse st b) = st"

definition error_response :: "string \<Rightarrow> nat \<Rightarrow> next_response" where
  "error_response message st = NextResponse st (JObj [(''error'', JStr message)])"

text \<open>The \<^verbatim>\<open>catch\<close> block of the handler.\<close>

definition failed :: next_response where
  "failed = error_response ''Failed to create provider'' 500"

text \<open>
  A destructured field of the body. \<^verbatim>\<open>undefined\<close> and \<^verbatim>\<open>null\<close> are both falsy, and the
  handler uses a field only behind \<^verbatim>\<open>||\<close> or after it has found it truthy.
\<close>

definition body_field :: "json \<Rightarrow> string \<Rightarrow> json" where
  "body_field body k = (case get_prop body k of None \<Rightarrow> JNull | Some v \<Rightarrow> v)"

text \<open>An object literal whose \<^verbatim>\<open>undefined\<close> members are left out, as JSON does.\<close>

fun defined_members :: "(string \<times> json option) list \<Rightarrow> (string \<times> json) list" where
  "defined_members [] = []"
| "defined_members ((k, None) # kvs) = defined_members kvs"
| "defined_members ((k, Some v) # kvs) = (k, v) # defined_members kvs"

text \<open>\<^verbatim>\<open>{ apiType: node.apiType, baseUrl: node.baseUrl, nodeName: node.name }\<close>\<close>

definition node_data :: "json \<Rightarrow> json" where
  "node_data node =
     JObj (defined_members [(''apiType'', get_prop node ''apiType''),
                            (''baseUrl'', get_prop node ''baseUrl''),
                            (''nodeName'', get_prop node ''name'')])"

text \<open>The argument of \<^verbatim>\<open>createProviderConnection\<close>.\<close>

definition connection_data :: "json \<Rightarrow> json \<Rightarrow> json" where
  "connection_data body providerSpecificData =
     JObj [(''provider'', body_field body ''provider''),
           (''authType'', JStr ''apikey''),
           (''name'', body_field body ''name''),
           (''apiKey'', body_field body ''apiKey''),
           (''priority'', js_or (get_prop body ''priority'') (JNum 1)),
           (''globalPriority'', js_or (get_prop body ''globalPriority'') JNull),
           (''defaultModel'', js_or (get_prop body ''defaultModel'') JNull),
           (''providerSpecificData'', providerSpecificData),
           (''isActive'', JBool True),
           (''testStatus'', js_or (get_prop body ''testStatus'') (JStr ''unknown''))]"

text \<open>
  From \<^verbatim>\<open>createProviderConnection\<close> to the 201 response: the new connection is copied,
  the copy loses its \<^verbatim>\<open>apiKey\<close>, the cloud sync runs.
\<close>

definition create_connection ::
  "'s providers_env \<Rightarrow> 's \<Rightarrow> json \<Rightarrow> json \<Rightarrow> next_response \<times> 's" where
  "create_connection env db body providerSpecificData =
     (case createProviderConnection env db (connection_data body providerSpecificData) of
        (db', None) \<Rightarrow> (failed, db')
      | (db', Some newConnection) \<Rightarrow>
          (NextResponse 201
             (JObj [(''connection'', JObj (obj_delete ''apiKey'' (entries newConnection)))]),
           syncToCloudIfEnabled env db'))"

text \<open>
  \<^verbatim>\<open>POST(request)\<close>, with the outcome of \<^verbatim>\<open>request.json()\<close> (\<open>None\<close> when it throws).
  Destructuring \<^verbatim>\<open>null\<close> throws.
\<close>

definition POST :: "'s providers_env \<Rightarrow> 's \<Rightarrow> json option \<Rightarrow> next_response \<times> 's" where
  "POST env db request_json =
     (case request_json of
        None \<Rightarrow> (failed, db)
      | Some body \<Rightarrow>
          if body = JNull then (failed, db)
          else if \<not> truthy (body_field body ''provider'')
                  \<or> (\<not> APIKEY_PROVIDERS env (body_field body ''provider'')
                      \<and> \<not> isOpenAICompatibleProvider env (body_field body ''provider''))
          then (error_response ''Invalid provider'' 400, db)
          else if \<not> truthy (body_field body ''apiKey'')
          then (error_response ''API Key is required'' 400, db)
          else if \<not> truthy (body_field body ''name'')
          then (error_response ''Name is required'' 400, db)
          else if isOpenAICompatibleProvider env (body_field body ''provider'') then
            (case getProviderNodeById env db (body_field body ''provider'') of
               None \<Rightarrow> (failed, db)
             | Some node \<Rightarrow>
                 if \<not> truthy node
                 then (error_response ''OpenAI Compatible node not found'' 404, db)
                 else
                   (case getProviderConnections env db (body_field body ''provider'') of
                      None \<Rightarrow> (failed, db)
                    | Some existingConnections \<Rightarrow>
                        if length existingConnections > 0
                        then (error_response
                                ''Only one connection is allowed for this OpenAI Compatible node''
                                400, db)
                        else create_connection env db body (node_data node)))
          else create_connection env db body JNull)"

text \<open>The connections of a provider are at most one, where they can be read.\<close>

definition at_most_one :: "'s providers_env \<Rightarrow> 's \<Rightarrow> json \<Rightarrow> bool" where
  "at_most_one env db provider =
     (case getProviderConnections env db provider of
        None \<Rightarrow> True
      | Some connections \<Rightarrow> length connections \<le> 1)"

text \<open>
  A database that is the list of its connections, with one OpenAI-compatible node.
\<close>

definition demo_node_id :: json where
  "demo_node_id = JStr ''openai-compatible-chat-1''"

definition demo_providers_env :: "json list providers_env" where
  "demo_providers_env =
     \<lparr> APIKEY_PROVIDERS = (\<lambda>p. p = JStr ''openai''),
       isOpenAICompatibleProvider =
         (\<lambda>p. case p of JStr s \<Rightarrow> take 18 s = ''openai-compatible-'' | _ \<Rightarrow> False),
       getProviderNodeById =
         (\<lambda>db p. Some (if p = demo_node_id
                         then JObj [(''id'', demo_node_id), (''apiType'', JStr ''chat''),
                                    (''baseUrl'', JStr ''http://localhost/v1''),
                                    (''name'', JStr ''local'')]
                         else JNull)),
       getProviderConnections =
         (\<lambda>db p. Some (filter (\<lambda>c. body_field c ''provider'' = p) db)),
       createProviderConnection = (\<lambda>db data. (db @ [data], Some data)),
       syncToCloudIfEnabled = (\<lambda>db. db) \<rparr>"

definition demo_request :: json where
  "demo_request =
     JObj [(''provider'', demo_node_id), (''apiKey'', JStr ''sk-1''), (''name'', JStr ''first'')]"

definition demo_connection :: json where
  "demo_connection =
     JObj [(''provider'', demo_node_id),
           (''authType'', JStr ''apikey''),
           (''name'', JStr ''first''),
           (''apiKey'', JStr ''sk-1''),
           (''priority'', JNum 1),
           (''globalPriority'', JNull),
           (''defaultModel'', JNull),
           (''providerSpecificData'',
            JObj [(''apiType'', JStr ''chat''), (''baseUrl'', JStr ''http://localhost/v1''),
                  (''nodeName'', JStr ''local'')]),
           (''isActive'', JBool True),
           (''testStatus'', JStr ''unknown'')]"

subsection \<open>Requests that overlap\<close>

text \<open>
  The handler is an \<^verbatim>\<open>async\<close> function: it runs without interruption from one
  \<^verbatim>\<open>await\<close> to the next, and at every \<^verbatim>\<open>await\<close> other requests may run. A request in
  progress is at one of its awaits: \<^verbatim>\<open>request.json()\<close>, \<^verbatim>\<open>getProviderNodeById\<close>,
  \<^verbatim>\<open>getProviderConnections\<close>, \<^verbatim>\<open>createProviderConnection\<close>, \<^verbatim>\<open>syncToCloudIfEnabled\<close>, or
  it has returned its response.
\<close>

datatype task =
    AtJson "json option"
  | AtNode json
  | AtConnections json json
  | AtCreate json json
  | AtSync json
  | Returned next_response

text \<open>
  One step of a request: the awaited call completes on the database as it is now, and
  the handler runs on to its next \<^verbatim>\<open>await\<close> or to its \<^verbatim>\<open>return\<close>.
\<close>

fun step :: "'s providers_env \<Rightarrow> 's \<Rightarrow> task \<Rightarrow> task \<times> 's" where
  "step env db (AtJson request_json) =
     (case request_json of
        None \<Rightarrow> (Returned failed, db)
      | Some body \<Rightarrow>
          if body = JNull then (Returned failed, db)
          else if \<not> truthy (body_field body ''provider'')
                  \<or> (\<not> APIKEY_PROVIDERS env (body_field body ''provider'')
                      \<and> \<not> isOpenAICompatibleProvider env (body_field body ''provider''))
          then (Returned (error_response ''Invalid provider'' 400), db)
          else if \<not> truthy (body_field body ''apiKey'')
          then (Returned (error_response ''API Key is required'' 400), db)
          else if \<not> truthy (body_field body ''name'')
          then (Returned (error_response ''Name is required'' 400), db)
          else if isOpenAICompatibleProvider env (body_field body ''provider'')
          then (AtNode body, db)
          else (AtCreate body JNull, db))"
| "step env db (AtNode body) =
     (case getProviderNodeById env db (body_field body ''provider'') of
        None \<Rightarrow> (Returned failed, db)
      | Some node \<Rightarrow>
          if \<not> truthy node
          then (Returned (error_response ''OpenAI Compatible node not found'' 404), db)
          else (AtConnections body node, db))"
| "step env db (AtConnections body node) =
     (case getProviderConnections env db (body_field body ''provider'') of
        None \<Rightarrow> (Returned failed, db)
      | Some existingConnections \<Rightarrow>
          if length existingConnections > 0
          then (Returned (error_response
                  ''Only one connection is allowed for this OpenAI Compatible node'' 400), db)
          else (AtCreate body (node_data node), db))"
| "step env db (AtCreate body providerSpecificData) =
     (case createProviderConnection env db (connection_data body providerSpecificData) of
        (db', None) \<Rightarrow> (Returned failed, db')
      | (db', Some newConnection) \<Rightarrow> (AtSync newConnection, db'))"
| "step env db (AtSync newConnection) =
     (Returned (NextResponse 201
        (JObj [(''connection'', JObj (obj_delete ''apiKey'' (entries newConnection)))])),
      syncToCloudIfEnabled env db)"
| "step env db (Returned response) = (Returned response, db)"

text \<open>
  Requests in progress and the order in which they take their steps: each number of the
  schedule names the request that runs next.
\<close>

fun interleave :: "'s providers_env \<Rightarrow> 's \<Rightarrow> task list \<Rightarrow> nat list \<Rightarrow> task list \<times> 's" where
  "interleave env db tasks [] = (tasks, db)"
| "interleave env db tasks (i # schedule) =
     (if i < length tasks
      then (case step env db (tasks ! i) of
              (t, db') \<Rightarrow> interleave env db' (tasks[i := t]) schedule)
      else interleave env db tasks schedule)"

definition demo_request2 :: json where
  "demo_request2 =
     JObj [(''provider'', demo_node_id), (''apiKey'', JStr ''sk-2''), (''name'', JStr ''second'')]"

definition demo_connection2 :: json where
  "demo_connection2 =
     JObj [(''provider'', demo_node_id),
           (''authType'', JStr ''apikey''),
           (''name'', JStr ''second''),
           (''apiKey'', JStr ''sk-2''),
           (''priority'', JNum 1),
           (''globalPriority'', JNull),
           (''defaultModel'', JNull),
           (''providerSpecificData'',
            JObj [(''apiType'', JStr ''chat''), (''baseUrl'', JStr ''http://localhost/v1''),
                  (''nodeName'', JStr ''local'')]),
           (''isActive'', JBool True),
           (''testStatus'', JStr ''unknown'')]"

section \<open>Properties of the in-flight counter\<close>


lemma activeByModel_track:
  "activeByModel (track st c) k =
     (if hits_model k c then max 0 (activeByModel st k + (if c_started c then 1 else - 1))
      else activeByModel st k)"
  by (simp add: activeByModel_def track_def trackPendingRequest_def hits_model_def bump_def Let_def
      split: option.splits)

lemma activeByAccount_track:
  "activeByAccount (track st c) a k =
     (if hits_account a k c then max 0 (activeByAccount st a k + (if c_started c then 1 else - 1))
      else activeByAccount st a k)"
  by (auto simp add: activeByAccount_def track_def trackPendingRequest_def hits_account_def
      hits_model_def bump_def Let_def truthy_str_def split: option.splits)

lemma begins_Cons:
  "begins hit (c # cs) = (if hit c \<and> c_started c then 1 else 0) + begins hit cs"
  by (simp add: begins_def)

lemma ends_Cons:
  "ends hit (c # cs) = (if hit c \<and> \<not> c_started c then 1 else 0) + ends hit cs"
  by (simp add: ends_def)

lemma walk_nonneg:
  assumes step: "\<And>st c. (obs (track st c) :: int) =
      (if hit c then max 0 (obs st + (if c_started c then 1 else - 1)) else obs st)"
  shows "0 \<le> obs st \<Longrightarrow> 0 \<le> obs (foldl track st cs)"
proof (induction cs arbitrary: st)
  case Nil
  then show ?case by simp
next
  case (Cons c cs)
  have "0 \<le> obs (track st c)" using Cons.prems by (auto simp add: step)
  then show ?case using Cons.IH by simp
qed

lemma walk_paired:
  assumes step: "\<And>st c. (obs (track st c) :: int) =
      (if hit c then max 0 (obs st + (if c_started c then 1 else - 1)) else obs st)"
  shows "0 \<le> obs st \<Longrightarrow> paired_from (obs st) hit cs \<Longrightarrow>
         obs (foldl track st cs) = obs st + begins hit cs - ends hit cs"
proof (induction cs arbitrary: st)
  case Nil
  then show ?case by (simp add: begins_def ends_def)
next
  case (Cons c cs)
  show ?case
  proof (cases "hit c")
    case False
    then have "obs (track st c) = obs st" by (simp add: step)
    with Cons False show ?thesis by (simp add: begins_Cons ends_Cons)
  next
    case hit: True
    show ?thesis
    proof (cases "c_started c")
      case True
      with hit Cons.prems have p: "paired_from (obs st + 1) hit cs" by simp
      from Cons.prems hit True have o: "obs (track st c) = obs st + 1" by (simp add: step)
      from Cons.IH [of "track st c"] p o Cons.prems
      have "obs (foldl track (track st c) cs) = obs st + 1 + begins hit cs - ends hit cs"
        by simp
      with hit True show ?thesis by (simp add: begins_Cons ends_Cons)
    next
      case False
      with hit Cons.prems have pos: "0 < obs st" and p: "paired_from (obs st - 1) hit cs"
        by simp_all
      from pos hit False have o: "obs (track st c) = obs st - 1" by (simp add: step)
      from Cons.IH [of "track st c"] p o pos
      have "obs (foldl track (track st c) cs) = obs st - 1 + begins hit cs - ends hit cs"
        by simp
      with hit False show ?thesis by (simp add: begins_Cons ends_Cons)
    qed
  qed
qed


lemma active0: "activeByModel pendingRequests0 k = 0" "activeByAccount pendingRequests0 a k = 0"
  by (simp_all add: activeByModel_def activeByAccount_def pendingRequests0_def)

text \<open>
  Claim C7, as amended. Every stored count is at least 0 after any finite sequence of
  calls. The stored count of a key equals the number of its begin calls minus the number
  of its end calls whenever no end call of that key arrives while its count is 0, both
  for a model key and for a (connection, model key) pair.
\<close>

theorem inflight_counter:
  "0 \<le> activeByModel (run_calls cs) k \<and>
   0 \<le> activeByAccount (run_calls cs) a k \<and>
   (paired (hits_model k) cs \<longrightarrow>
      activeByModel (run_calls cs) k = begins (hits_model k) cs - ends (hits_model k) cs) \<and>
   (paired (hits_account a k) cs \<longrightarrow>
      activeByAccount (run_calls cs) a k
        = begins (hits_account a k) cs - ends (hits_account a k) cs)"
proof -
  have m: "0 \<le> activeByModel (run_calls cs) k"
    unfolding run_calls_def
    by (rule walk_nonneg [where obs = "\<lambda>st. activeByModel st k" and hit = "hits_model k"])
       (simp_all add: activeByModel_track active0)
  have a: "0 \<le> activeByAccount (run_calls cs) a k"
    unfolding run_calls_def
    by (rule walk_nonneg [where obs = "\<lambda>st. activeByAccount st a k" and hit = "hits_account a k"])
       (simp_all add: activeByAccount_track active0)
  have pm: "activeByModel (run_calls cs) k = begins (hits_model k) cs - ends (hits_model k) cs"
    if "paired (hits_model k) cs"
    using walk_paired [where obs = "\<lambda>st. activeByModel st k" and hit = "hits_model k"
        and st = pendingRequests0 and cs = cs] that
    by (simp add: activeByModel_track active0 run_calls_def paired_def)
  have pa: "activeByAccount (run_calls cs) a k
        = begins (hits_account a k) cs - ends (hits_account a k) cs"
    if "paired (hits_account a k) cs"
    using walk_paired [where obs = "\<lambda>st. activeByAccount st a k" and hit = "hits_account a k"
        and st = pendingRequests0 and cs = cs] that
    by (simp add: activeByAccount_track active0 run_calls_def paired_def)
  from m a pm pa show ?thesis by blast
qed

text \<open>The theorem at a balanced sequence of three calls.\<close>

theorem inflight_counter_witness:
  "paired (hits_model ''gpt-4o (openai)'') demo_calls \<and>
   paired (hits_account ''c1'' ''gpt-4o (openai)'') demo_calls \<and>
   activeByModel (run_calls demo_calls) ''gpt-4o (openai)'' = 1 \<and>
   activeByAccount (run_calls demo_calls) ''c1'' ''gpt-4o (openai)'' = 0"
proof -
  have p1: "paired (hits_model ''gpt-4o (openai)'') demo_calls"
    by (simp add: paired_def demo_calls_def hits_model_def modelKey_def truthy_str_def)
  have p2: "paired (hits_account ''c1'' ''gpt-4o (openai)'') demo_calls"
    by (simp add: paired_def demo_calls_def hits_account_def hits_model_def modelKey_def truthy_str_def)
  have b1: "begins (hits_model ''gpt-4o (openai)'') demo_calls - ends (hits_model ''gpt-4o (openai)'') demo_calls = 1"
    by (simp add: begins_def ends_def demo_calls_def hits_model_def modelKey_def truthy_str_def)
  have b2: "begins (hits_account ''c1'' ''gpt-4o (openai)'') demo_calls
            - ends (hits_account ''c1'' ''gpt-4o (openai)'') demo_calls = 0"
    by (simp add: begins_def ends_def demo_calls_def hits_account_def hits_model_def modelKey_def truthy_str_def)
  from inflight_counter [of demo_calls "''gpt-4o (openai)''" "''c1''"] p1 p2 b1 b2
  show ?thesis by simp
qed

text \<open>
  Claim C7 as stated fails: an end call with no begin before it leaves the count at 0
  (\<^verbatim>\<open>Math.max(0, ...)\<close>), whereas begins minus ends is \<open>-1\<close>.
\<close>

theorem inflight_counter_counterexample:
  "activeByModel (run_calls [lone_end]) ''gpt-4o (openai)''
     \<noteq> begins (hits_model ''gpt-4o (openai)'') [lone_end]
       - ends (hits_model ''gpt-4o (openai)'') [lone_end]"
  by (simp add: run_calls_def track_def trackPendingRequest_def pendingRequests0_def lone_end_def
      activeByModel_def begins_def ends_def hits_model_def modelKey_def truthy_str_def bump_def Let_def)

section \<open>Properties of the cost function\<close>




section \<open>Properties of the Kiro stream transform\<close>

lemma startChunk_cong [simp]:
  "startChunk env (st\<lparr>hasToolCalls := b\<rparr>) i k n = startChunk env st i k n"
  by (simp add: startChunk_def)

lemma finishChunk_cong [simp]:
  "finishChunk env (st\<lparr>finishEmitted := b\<rparr>) = finishChunk env st"
  "finishChunk env (st\<lparr>timerPending := b\<rparr>) = finishChunk env st"
  by (simp_all add: finishChunk_def)




lemma parseEventFrame_short: "length data < 8 \<Longrightarrow> parseEventFrame env data = None"
  by (simp add: parseEventFrame_def)

lemma parseEventFrame_long:
  "8 \<le> length data \<Longrightarrow>
     parseEventFrame env data =
       Some \<lparr>headers = parse_headers (textDecode env) data 12 (12 + getUint32 data 4) [],
             payload = parse_payload env data (getUint32 data 4)\<rparr>"
  by (simp add: parseEventFrame_def Let_def)

lemma frames_loop_head:
  assumes "16 \<le> length buf" "16 \<le> getUint32 buf 0" "getUint32 buf 0 \<le> length buf"
    and "parseEventFrame env (slice buf 0 (getUint32 buf 0)) = Some ev"
  shows "frames_loop env buf st =
           (case handle_event env st ev of
              Inl st1 \<Rightarrow> (drop (getUint32 buf 0) buf, Inl st1)
            | Inr st1 \<Rightarrow> frames_loop env (drop (getUint32 buf 0) buf) st1)"
  using assms by (subst frames_loop.simps) (simp add: Let_def)

lemma handle_event_other:
  assumes "eventType ev \<notin> {''assistantResponseEvent'', ''codeEvent'', ''toolUseEvent'',
              ''messageStopEvent'', ''meteringEvent'', ''contextUsageEvent''}"
  shows "handle_event env st ev = Inr st"
  using assms by (simp add: handle_event_def Let_def)

lemma handle_event_no_throw:
  assumes "eventType ev \<noteq> ''toolUseEvent''"
  shows "\<exists>st'. handle_event env st ev = Inr st'"
  using assms by (simp add: handle_event_def Let_def)

lemma frame1_bytes:
  "frame1 = [0, 0, 0, 82, 0, 0, 0, 27, 0, 0, 0, 0, 11, 58, 101, 118, 101, 110, 116, 45, 116,
     121, 112, 101, 7, 0, 12, 116, 111, 111, 108, 85, 115, 101, 69, 118, 101, 110, 116, 123,
     34, 116, 111, 111, 108, 85, 115, 101, 73, 100, 34, 58, 34, 116, 49, 34, 44, 34, 110,
     97, 109, 101, 34, 58, 34, 103, 101, 116, 95, 119, 101, 97, 116, 104, 101, 114, 34, 125,
     0, 0, 0, 0]"
  by (simp add: frame1_def frame_of_def header_bytes_def u32be_def ascii_bytes_def
     payload1_def payload2_def quoted_def Let_def)

lemma frame2_bytes:
  "frame2 = [0, 0, 0, 102, 0, 0, 0, 27, 0, 0, 0, 0, 11, 58, 101, 118, 101, 110, 116, 45,
     116, 121, 112, 101, 7, 0, 12, 116, 111, 111, 108, 85, 115, 101, 69, 118, 101, 110, 116,
     123, 34, 116, 111, 111, 108, 85, 115, 101, 73, 100, 34, 58, 34, 116, 49, 34, 44, 34,
     110, 97, 109, 101, 34, 58, 34, 103, 101, 116, 95, 119, 101, 97, 116, 104, 101, 114, 34,
     44, 34, 105, 110, 112, 117, 116, 34, 58, 34, 123, 92, 34, 97, 92, 34, 58, 49, 125, 34,
     125, 0, 0, 0, 0]"
  by (simp add: frame2_def frame_of_def header_bytes_def u32be_def ascii_bytes_def
     payload1_def payload2_def quoted_def Let_def)

lemma stop_frame_bytes:
  "stop_frame = [0, 0, 0, 49, 0, 0, 0, 31, 0, 0, 0, 0, 11, 58, 101, 118, 101, 110, 116, 45,
     116, 121, 112, 101, 7, 0, 16, 109, 101, 115, 115, 97, 103, 101, 83, 116, 111, 112, 69,
     118, 101, 110, 116, 123, 125, 0, 0, 0, 0]"
  by (simp add: stop_frame_def frame_of_def header_bytes_def u32be_def ascii_bytes_def
     payload1_def payload2_def quoted_def Let_def)

lemma other_frame_bytes:
  "other_frame = [0, 0, 0, 52, 0, 0, 0, 34, 0, 0, 0, 0, 11, 58, 101, 118, 101, 110, 116, 45,
     116, 121, 112, 101, 7, 0, 19, 102, 111, 108, 108, 111, 119, 117, 112, 80, 114, 111,
     109, 112, 116, 69, 118, 101, 110, 116, 123, 125, 0, 0, 0, 0]"
  by (simp add: other_frame_def frame_of_def header_bytes_def u32be_def ascii_bytes_def
     payload1_def payload2_def quoted_def Let_def)

lemmas parse_eval =
  parseEventFrame_def parse_headers.simps parse_payload_def getUint32_def
  byte_or0_def byte_at_def slice_def demo_env_def latin1_decode_def header_set_def
  event_of_def bit_0 blank_def is_js_space_def char_of_def demo_parse_def
  payload1_def payload2_def quoted_def tool_use1_def tool_use2_def args_text_def Let_def

lemma parse_frame1: "parseEventFrame demo_env frame1 = Some ev1"
  unfolding frame1_bytes ev1_def by (simp add: parse_eval)

lemma parse_frame2: "parseEventFrame demo_env frame2 = Some ev2"
  unfolding frame2_bytes ev2_def by (simp add: parse_eval)

lemma parse_stop_frame: "parseEventFrame demo_env stop_frame = Some stop_ev"
  unfolding stop_frame_bytes stop_ev_def by (simp add: parse_eval)

lemma parse_other_frame:
  "parseEventFrame demo_env other_frame = Some (event_of ''followupPromptEvent'' (JObj []))"
  unfolding other_frame_bytes by (simp add: parse_eval)

lemma frame_sizes:
  "length frame1 = 82" "getUint32 frame1 0 = 82"
  "length frame2 = 102" "getUint32 frame2 0 = 102"
  "length stop_frame = 49" "getUint32 stop_frame 0 = 49"
  "length other_frame = 52" "getUint32 other_frame 0 = 52"
  unfolding frame1_bytes frame2_bytes stop_frame_bytes other_frame_bytes
  by (simp_all add: getUint32_def)

lemma frames_loop_short: "length buf < 16 \<Longrightarrow> frames_loop env buf st = (buf, Inr st)"
  by (subst frames_loop.simps) simp

lemma pull_value_one_frame:
  assumes "phase st = Open" "buffer st = []" "16 \<le> length f" "getUint32 f 0 = length f"
    and "parseEventFrame env f = Some ev" "handle_event env st ev = Inr st'"
  shows "pull_value env st f = st'\<lparr>buffer := []\<rparr>"
  using assms
  by (simp add: pull_value_def frames_loop_head slice_def frames_loop_short)

lemmas event_eval =
  handle_event_def tool_use_step_def eventType_def payload_content_def event_of_def
  ev1_def ev2_def stop_ev_def tool_use1_def tool_use2_def truthy_opt_def js_or_def
  seen_has_def seen_get_def seen_set_def enqueue_def kstate0_def Let_def

lemma handle_ev1: "handle_event demo_env kstate0 ev1 = Inr state1"
  by (simp add: event_eval state1_def startChunk_def)

lemma handle_ev2: "handle_event demo_env state1 ev2 = Inr state2"
  by (simp add: event_eval state1_def state2_def)

lemma after_two_frames_eq: "after_two_frames = state2"
proof -
  have 1: "pull_value demo_env kstate0 frame1 = state1"
    using pull_value_one_frame [OF _ _ _ _ parse_frame1 handle_ev1]
    by (simp add: frame_sizes kstate0_def state1_def)
  have 2: "pull_value demo_env state1 frame2 = state2"
    using pull_value_one_frame [OF _ _ _ _ parse_frame2 handle_ev2]
    by (simp add: frame_sizes state1_def state2_def)
  show ?thesis
    by (simp add: after_two_frames_def transformEventStreamToSSE_def 1 2)
qed

lemma getUint32_append: "4 \<le> length a \<Longrightarrow> getUint32 (a @ b) 0 = getUint32 a 0"
  by (auto simp add: getUint32_def nth_append)

lemma quiet_refl [simp]: "quiet k st st"
  by (simp add: quiet_def)



lemma starts_tool_simps [simp]:
  "starts_tool k (Data (startChunk env st i k' nm)) = (k' = k)"
  "\<not> starts_tool k (Data (argsChunk env i s))"
  "\<not> starts_tool k (Data (finishChunk env st))"
  "\<not> starts_tool k (Data (mk_chunk env (JObj [(''content'', c)]) JNull))"
  "\<not> starts_tool k (Data (mk_chunk env (JObj [(''role'', r), (''content'', c)]) JNull))"
  by (simp_all add: starts_tool_def delta_tool_calls_def chunk_delta_def choice0_def startChunk_def
      argsChunk_def finishChunk_def mk_chunk_def)

lemma starts_tool_input_chunks [simp]: "\<not> list_ex (starts_tool k) (input_chunks env i inp)"
  by (simp add: input_chunks_def split: option.splits json.splits)


text \<open>What one tool use does, for any id.\<close>

lemma tool_use_step_effect:
  assumes "u \<noteq> JNull"
  shows "\<exists>st'. tool_use_step env st u = Inr st' \<and>
     hasToolCalls st' = hasToolCalls st \<and>
     (if seen_has (seenToolIds st) (toolCallId env st u)
      then seenToolIds st' = seenToolIds st \<and> toolCallIndex st' = toolCallIndex st \<and>
           emitted st' = emitted st @
             input_chunks env (the (seen_get (seenToolIds st) (toolCallId env st u)))
               (get_prop u ''input'')
      else seenToolIds st' = seenToolIds st @ [(toolCallId env st u, toolCallIndex st)] \<and>
           toolCallIndex st' = toolCallIndex st + 1 \<and>
           emitted st' = emitted st @
             Data (startChunk env st (toolCallIndex st) (toolCallId env st u)
                     (js_or (get_prop u ''name'') (JStr [])))
             # input_chunks env (toolCallIndex st) (get_prop u ''input''))"
proof -
  let ?k = "toolCallId env st u"
  let ?st0 = "if truthy_opt (get_prop u ''toolUseId'') then st
              else st\<lparr>clockReads := clockReads st + 1\<rparr>"
  have k: "?k = (if truthy_opt (get_prop u ''toolUseId'') then the (get_prop u ''toolUseId'')
                 else JStr (''call_'' @ dec (dateNow env (clockReads st))))"
    by (auto simp add: toolCallId_def js_or_def truthy_opt_def split: option.splits)
  have s0: "seenToolIds ?st0 = seenToolIds st" "toolCallIndex ?st0 = toolCallIndex st"
    "emitted ?st0 = emitted st" "hasToolCalls ?st0 = hasToolCalls st"
    "chunkIndex ?st0 = chunkIndex st"
    by simp_all
  have sc: "startChunk env ?st0 i k' nm = startChunk env st i k' nm" for i k' nm
    by (simp add: startChunk_def)
  show ?thesis
  proof (cases "seen_has (seenToolIds st) ?k")
    case True
    then show ?thesis
      using assms k
      by (cases "get_prop u ''input''"; cases "the (get_prop u ''input'')";
          cases "truthy_opt (get_prop u ''toolUseId'')")
         (simp_all add: tool_use_step_def Let_def enqueue_def input_chunks_def)
  next
    case False
    then show ?thesis
      using assms k
      by (cases "get_prop u ''input''"; cases "the (get_prop u ''input'')";
          cases "truthy_opt (get_prop u ''toolUseId'')")
         (simp_all add: tool_use_step_def Let_def enqueue_def input_chunks_def seen_set_def
            startChunk_def)
  qed
qed





lemma quiet_updates [simp]:
  "quiet k st (st\<lparr>hasToolCalls := True\<rparr>)"
  "quiet k st (st\<lparr>endDetected := True, timerPending := True\<rparr>)"
  "\<not> starts_tool k x \<Longrightarrow> quiet k st (enqueue x (st\<lparr>chunkIndex := c\<rparr>))"
  "\<not> starts_tool k x \<Longrightarrow> quiet k st (enqueue x (st\<lparr>finishEmitted := True\<rparr>))"
  by (simp_all add: quiet_def enqueue_def)



lemma complete_frame_parses:
  "complete_frame f \<Longrightarrow> parseEventFrame env f = Some (event_at env f)"
  by (simp add: complete_frame_def event_at_def parseEventFrame_def Let_def)

lemma frames_loop_frame:
  assumes "complete_frame f"
  shows "frames_loop env (f @ rest) st =
           (case handle_event env st (event_at env f) of
              Inl st1 \<Rightarrow> (rest, Inl st1)
            | Inr st1 \<Rightarrow> frames_loop env rest st1)"
proof -
  from assms have l: "16 \<le> length f" "getUint32 f 0 = length f"
    by (simp_all add: complete_frame_def)
  then have g: "getUint32 (f @ rest) 0 = length f" by (simp add: getUint32_append)
  have "frames_loop env (f @ rest) st =
           (case handle_event env st (event_at env f) of
              Inl st1 \<Rightarrow> (drop (getUint32 (f @ rest) 0) (f @ rest), Inl st1)
            | Inr st1 \<Rightarrow> frames_loop env (drop (getUint32 (f @ rest) 0) (f @ rest)) st1)"
    using l by (intro frames_loop_head)
      (simp_all add: g slice_def complete_frame_parses [OF assms])
  then show ?thesis by (simp add: g split: sum.splits)
qed

lemma frames_loop_frames:
  assumes "list_all complete_frame fs"
  shows "handle_events env st (map (event_at env) fs) = Inr st' \<Longrightarrow>
           frames_loop env (concat fs @ rest) st = frames_loop env rest st'"
    and "handle_events env st (map (event_at env) fs) = Inl st' \<Longrightarrow>
           snd (frames_loop env (concat fs @ rest) st) = Inl st'"
  using assms
proof (induction fs arbitrary: st)
  case Nil
  { case 1 then show ?case by simp }
  { case 2 then show ?case by simp }
next
  case (Cons f fs)
  { case 1
    then have c: "complete_frame f" and cs: "list_all complete_frame fs" by simp_all
    from 1 obtain st1 where h: "handle_event env st (event_at env f) = Inr st1"
      and r: "handle_events env st1 (map (event_at env) fs) = Inr st'"
      by (auto split: sum.splits)
    from frames_loop_frame [OF c, of env "concat fs @ rest" st] h
    have "frames_loop env (concat (f # fs) @ rest) st = frames_loop env (concat fs @ rest) st1"
      by simp
    with Cons.IH(1) [OF r cs] show ?case by simp }
  { case 2
    then have c: "complete_frame f" and cs: "list_all complete_frame fs" by simp_all
    show ?case
    proof (cases "handle_event env st (event_at env f)")
      case (Inl st1)
      with 2 have "st1 = st'" by simp
      with frames_loop_frame [OF c, of env "concat fs @ rest" st] Inl show ?thesis by simp
    next
      case (Inr st1)
      with 2 have r: "handle_events env st1 (map (event_at env) fs) = Inl st'" by simp
      from frames_loop_frame [OF c, of env "concat fs @ rest" st] Inr
      have "frames_loop env (concat (f # fs) @ rest) st = frames_loop env (concat fs @ rest) st1"
        by simp
      with Cons.IH(2) [OF r cs] show ?thesis by simp
    qed }
qed

lemma pull_value_frames:
  assumes "list_all complete_frame fs" "phase st = Open" "buffer st = []"
    and "handle_events env st (map (event_at env) fs) = Inr st'"
  shows "pull_value env st (concat fs) = st'\<lparr>buffer := []\<rparr>"
proof -
  from frames_loop_frames(1) [OF assms(1,4), of "[]"]
  have "frames_loop env (concat fs) st = ([], Inr st')" by (simp add: frames_loop_short)
  with assms(2,3) show ?thesis by (simp add: pull_value_def)
qed




lemma filter_input_chunks [simp]: "filter (starts_tool k) (input_chunks env i inp) = []"
  using starts_tool_input_chunks [of k env i inp] by (simp add: list_ex_iff filter_empty_conv)


lemma handle_stop_event:
  assumes t: "eventType ev = ''messageStopEvent''"
  shows "handle_event env st ev
           = Inr (enqueue (Data (finishChunk env st)) (st\<lparr>finishEmitted := True\<rparr>))"
  using t by (simp add: handle_event_def Let_def)

text \<open>
  Claim C4. A \<^verbatim>\<open>messageStopEvent\<close> frame emits one chunk with empty delta whose
  \<^verbatim>\<open>finish_reason\<close> is \<^verbatim>\<open>tool_calls\<close> when the has-tool-calls flag is set and
  \<^verbatim>\<open>stop\<close> otherwise, and sets \<open>finishEmitted\<close>. When the reader reports done on an open
  stream, the same chunk is emitted if \<open>finishEmitted\<close> is not set, then the line
  \<^verbatim>\<open>data: [DONE]\<close>, and the stream is closed.
\<close>

theorem finish_chunk_rules:
  "(eventType ev = ''messageStopEvent'' \<longrightarrow>
      (\<exists>st'. handle_event env st ev = Inr st' \<and>
         emitted st' = emitted st @ [Data (finishChunk env st)] \<and>
         finishEmitted st' \<and> phase st' = phase st)) \<and>
   (phase st = Open \<longrightarrow>
      emitted (pull_done env st)
        = emitted st @ (if finishEmitted st then [] else [Data (finishChunk env st)]) @ [DoneLine] \<and>
      finishEmitted (pull_done env st) \<and>
      phase (pull_done env st) = Closed) \<and>
   chunk_delta (finishChunk env st) = Some (JObj []) \<and>
   chunk_finish_reason (finishChunk env st)
     = Some (JStr (if hasToolCalls st then ''tool_calls'' else ''stop''))"
proof (intro conjI impI)
  assume t: "eventType ev = ''messageStopEvent''"
  show "\<exists>st'. handle_event env st ev = Inr st' \<and>
         emitted st' = emitted st @ [Data (finishChunk env st)] \<and>
         finishEmitted st' \<and> phase st' = phase st"
    by (simp add: handle_stop_event [OF t] enqueue_def)
next
  assume o: "phase st = Open"
  show "emitted (pull_done env st)
        = emitted st @ (if finishEmitted st then [] else [Data (finishChunk env st)]) @ [DoneLine]"
    using o by (simp add: pull_done_def enqueue_def Let_def)
  show "finishEmitted (pull_done env st)"
    using o by (simp add: pull_done_def enqueue_def Let_def)
  show "phase (pull_done env st) = Closed"
    using o by (simp add: pull_done_def enqueue_def Let_def)
next
  show "chunk_delta (finishChunk env st) = Some (JObj [])"
    by (simp add: chunk_delta_def choice0_def finishChunk_def mk_chunk_def)
  show "chunk_finish_reason (finishChunk env st)
     = Some (JStr (if hasToolCalls st then ''tool_calls'' else ''stop''))"
    by (simp add: chunk_finish_reason_def choice0_def finishChunk_def mk_chunk_def)
qed

lemma parseEventFrame_None: "(parseEventFrame env data = None) = (length data < 8)"
  by (simp add: parseEventFrame_def Let_def)

lemma payload_event_at:
  assumes "8 \<le> length data"
  shows "payload (event_at env data) =
           (if int (length data) - 4 \<le> int (12 + getUint32 data 4) then JNull
            else if blank (textDecode env
                      (slice data (12 + getUint32 data 4) (length data - 4))) then JNull
            else (case jsonParse env (textDecode env
                      (slice data (12 + getUint32 data 4) (length data - 4))) of
                    Some v \<Rightarrow> v
                  | None \<Rightarrow> JObj [(''raw'', JStr (textDecode env
                      (slice data (12 + getUint32 data 4) (length data - 4))))]))"
  using assms
  by (auto simp add: event_at_def parseEventFrame_long parse_payload_def Let_def nat_diff_distrib)

text \<open>A frame whose payload did not parse is handled like any other frame of its type.\<close>

lemma handle_raw_tool_event:
  assumes "eventType ev = ''toolUseEvent''" "payload ev = JObj [(''raw'', JStr payloadStr)]"
  shows "\<exists>st'. handle_event env st ev = Inr st' \<and> hasToolCalls st' \<and>
     (\<not> seen_has (seenToolIds st) (JStr (''call_'' @ dec (dateNow env (clockReads st)))) \<longrightarrow>
        toolCallIndex st' = toolCallIndex st + 1 \<and>
        emitted st' = emitted st @
          [Data (startChunk env st (toolCallIndex st)
                   (JStr (''call_'' @ dec (dateNow env (clockReads st)))) (JStr []))])"
proof -
  let ?u = "JObj [(''raw'', JStr payloadStr)]"
  let ?st = "st\<lparr>hasToolCalls := True\<rparr>"
  have k: "toolCallId env ?st ?u = JStr (''call_'' @ dec (dateNow env (clockReads st)))"
    by (simp add: toolCallId_def js_or_def)
  from tool_use_step_effect [of ?u env ?st] obtain st' where
    r: "tool_use_step env ?st ?u = Inr st'" and h: "hasToolCalls st' = hasToolCalls ?st"
    and e: "if seen_has (seenToolIds ?st) (toolCallId env ?st ?u)
      then seenToolIds st' = seenToolIds ?st \<and> toolCallIndex st' = toolCallIndex ?st \<and>
           emitted st' = emitted ?st @
             input_chunks env (the (seen_get (seenToolIds ?st) (toolCallId env ?st ?u)))
               (get_prop ?u ''input'')
      else seenToolIds st' = seenToolIds ?st @ [(toolCallId env ?st ?u, toolCallIndex ?st)] \<and>
           toolCallIndex st' = toolCallIndex ?st + 1 \<and>
           emitted st' = emitted ?st @
             Data (startChunk env ?st (toolCallIndex ?st) (toolCallId env ?st ?u)
                     (js_or (get_prop ?u ''name'') (JStr [])))
             # input_chunks env (toolCallIndex ?st) (get_prop ?u ''input'')"
    by blast
  from assms r have "handle_event env st ev = Inr st'"
    by (simp add: handle_event_def Let_def payload_content_def)
  moreover from h have "hasToolCalls st'" by simp
  moreover from e have "toolCallIndex st' = toolCallIndex st + 1 \<and>
        emitted st' = emitted st @
          [Data (startChunk env st (toolCallIndex st)
                   (JStr (''call_'' @ dec (dateNow env (clockReads st)))) (JStr []))]"
    if "\<not> seen_has (seenToolIds st) (JStr (''call_'' @ dec (dateNow env (clockReads st))))"
    using that by (simp add: k js_or_def input_chunks_def)
  ultimately show ?thesis by blast
qed

lemma handle_raw_other_event:
  assumes "payload ev = JObj [(''raw'', JStr payloadStr)]"
    and "eventType ev \<notin> {''toolUseEvent'', ''messageStopEvent'', ''meteringEvent'',
                          ''contextUsageEvent''}"
  shows "handle_event env st ev = Inr st"
  using assms by (simp add: handle_event_def Let_def payload_content_def truthy_opt_def)

text \<open>A length prefix below 16 at the head of the buffer: the loop stops there for good.\<close>

lemma frames_loop_stalls:
  assumes "16 \<le> length buf" "getUint32 buf 0 < 16"
  shows "frames_loop env (buf @ bytes) st = (buf @ bytes, Inr st)"
proof -
  from assms have "getUint32 (buf @ bytes) 0 < 16" by (simp add: getUint32_append)
  then show ?thesis by (subst frames_loop.simps) (simp add: Let_def)
qed

lemma pull_value_stalls:
  assumes "phase st = Open" "16 \<le> length (buffer st)" "getUint32 (buffer st) 0 < 16"
  shows "pull_value env st v = st\<lparr>buffer := buffer st @ v\<rparr>"
  using assms by (simp add: pull_value_def frames_loop_stalls)

text \<open>
  Claim C10, as far as it holds. \<^verbatim>\<open>parseEventFrame\<close> returns for every byte array, and
  it returns \<^verbatim>\<open>null\<close> exactly on fewer than 8 bytes (the caught \<^verbatim>\<open>RangeError\<close>);
  otherwise the payload of the event is \<^verbatim>\<open>null\<close> when the payload region is empty or
  blank, the parsed JSON when it parses, and \<^verbatim>\<open>{raw: text}\<close> when it does not. The frames
  that the transform cuts off the buffer have at least 16 bytes, so none of them is
  skipped: the loop handles the event of every frame in turn until one throws. An event
  with a \<^verbatim>\<open>{raw: text}\<close> payload is handled according to its type: a \<^verbatim>\<open>toolUseEvent\<close> sets
  the has-tool-calls flag and starts a tool call under a made-up id, and a type other than
  \<^verbatim>\<open>toolUseEvent\<close>, \<^verbatim>\<open>messageStopEvent\<close>, \<^verbatim>\<open>meteringEvent\<close> and \<^verbatim>\<open>contextUsageEvent\<close> leaves
  the state as it was. A length prefix below 16 at the head of the buffer is not skipped
  either: every later read is appended behind it and nothing more is handled.
\<close>

theorem parseEventFrame_total:
  "((parseEventFrame env data = None) = (length data < 8)) \<and>
   (8 \<le> length data \<longrightarrow>
      payload (event_at env data) =
        (if int (length data) - 4 \<le> int (12 + getUint32 data 4) then JNull
         else if blank (textDecode env
                   (slice data (12 + getUint32 data 4) (length data - 4))) then JNull
         else (case jsonParse env (textDecode env
                   (slice data (12 + getUint32 data 4) (length data - 4))) of
                 Some v \<Rightarrow> v
               | None \<Rightarrow> JObj [(''raw'', JStr (textDecode env
                   (slice data (12 + getUint32 data 4) (length data - 4))))]))) \<and>
   (list_all complete_frame fs \<longrightarrow>
      list_all (\<lambda>f. parseEventFrame env f = Some (event_at env f)) fs \<and>
      (\<forall>st'. handle_events env st (map (event_at env) fs) = Inr st' \<longrightarrow>
             frames_loop env (concat fs @ rest) st = frames_loop env rest st') \<and>
      (\<forall>st'. handle_events env st (map (event_at env) fs) = Inl st' \<longrightarrow>
             snd (frames_loop env (concat fs @ rest) st) = Inl st')) \<and>
   (payload ev = JObj [(''raw'', JStr payloadStr)] \<longrightarrow>
      (eventType ev = ''toolUseEvent'' \<longrightarrow>
         (\<exists>st'. handle_event env st ev = Inr st' \<and> hasToolCalls st' \<and>
            (\<not> seen_has (seenToolIds st) (JStr (''call_'' @ dec (dateNow env (clockReads st)))) \<longrightarrow>
               toolCallIndex st' = toolCallIndex st + 1 \<and>
               emitted st' = emitted st @
                 [Data (startChunk env st (toolCallIndex st)
                          (JStr (''call_'' @ dec (dateNow env (clockReads st)))) (JStr []))]))) \<and>
      (eventType ev \<notin> {''toolUseEvent'', ''messageStopEvent'', ''meteringEvent'',
                        ''contextUsageEvent''} \<longrightarrow>
         handle_event env st ev = Inr st)) \<and>
   (phase st = Open \<and> 16 \<le> length (buffer st) \<and> getUint32 (buffer st) 0 < 16 \<longrightarrow>
      pull_value env st v = st\<lparr>buffer := buffer st @ v\<rparr>)"
proof -
  have a: "list_all (\<lambda>f. parseEventFrame env f = Some (event_at env f)) fs"
    if "list_all complete_frame fs"
    using that by (simp add: list_all_iff complete_frame_parses)
  from parseEventFrame_None [of env data] payload_event_at [of data env] a
    frames_loop_frames [of fs env st _ rest]
    handle_raw_tool_event [of ev payloadStr env st] handle_raw_other_event [of ev payloadStr env st]
    pull_value_stalls [of st env v]
  show ?thesis by blast
qed





text \<open>
  Claim C4 after the two tool-use frames of the scenario (the flag is set), and on a
  stream that ends before any frame (the flag is not set).
\<close>

theorem finish_chunk_rules_witness:
  "phase after_two_frames = Open \<and> \<not> finishEmitted after_two_frames \<and>
   eventType stop_ev = ''messageStopEvent'' \<and>
   (\<exists>st'. handle_event demo_env after_two_frames stop_ev = Inr st' \<and>
      emitted st' = emitted after_two_frames @ [Data (mk_chunk demo_env (JObj []) (JStr ''tool_calls''))]) \<and>
   emitted (pull_done demo_env after_two_frames)
     = emitted after_two_frames @ [Data (mk_chunk demo_env (JObj []) (JStr ''tool_calls'')), DoneLine] \<and>
   phase (pull_done demo_env after_two_frames) = Closed \<and>
   emitted (pull_done demo_env kstate0)
     = [Data (mk_chunk demo_env (JObj []) (JStr ''stop'')), DoneLine]"
proof -
  have o: "phase after_two_frames = Open" and nf: "\<not> finishEmitted after_two_frames"
    and tc: "hasToolCalls after_two_frames"
    by (simp_all add: after_two_frames_eq state2_def)
  have o0: "phase kstate0 = Open" and nf0: "\<not> finishEmitted kstate0" and e0: "emitted kstate0 = []"
    and tc0: "\<not> hasToolCalls kstate0"
    by (simp_all add: kstate0_def)
  have t: "eventType stop_ev = ''messageStopEvent''"
    by (simp add: eventType_def stop_ev_def event_of_def)
  have fc: "finishChunk demo_env after_two_frames = mk_chunk demo_env (JObj []) (JStr ''tool_calls'')"
    using tc by (simp add: finishChunk_def)
  have fc0: "finishChunk demo_env kstate0 = mk_chunk demo_env (JObj []) (JStr ''stop'')"
    using tc0 by (simp add: finishChunk_def)
  note r = finish_chunk_rules [of stop_ev demo_env after_two_frames]
  note r0 = finish_chunk_rules [of stop_ev demo_env kstate0]
  from r t fc obtain st' where "handle_event demo_env after_two_frames stop_ev = Inr st'"
    "emitted st' = emitted after_two_frames @ [Data (mk_chunk demo_env (JObj []) (JStr ''tool_calls''))]"
    by auto
  moreover from r o nf fc have "emitted (pull_done demo_env after_two_frames)
     = emitted after_two_frames @ [Data (mk_chunk demo_env (JObj []) (JStr ''tool_calls'')), DoneLine]"
    "phase (pull_done demo_env after_two_frames) = Closed"
    by simp_all
  moreover from r0 o0 nf0 fc0 e0 have "emitted (pull_done demo_env kstate0)
     = [Data (mk_chunk demo_env (JObj []) (JStr ''stop'')), DoneLine]"
    by simp
  ultimately show ?thesis using o nf t by blast
qed

lemma raw_frame_bytes:
  "raw_frame = [0, 0, 0, 47, 0, 0, 0, 27, 0, 0, 0, 0, 11, 58, 101, 118, 101, 110, 116, 45, 116,
     121, 112, 101, 7, 0, 12, 116, 111, 111, 108, 85, 115, 101, 69, 118, 101, 110, 116, 111,
     111, 112, 115, 0, 0, 0, 0]"
  by (simp add: raw_frame_def frame_of_def header_bytes_def u32be_def ascii_bytes_def Let_def)

lemma parse_raw_frame:
  "parseEventFrame demo_env raw_frame =
     Some (event_of ''toolUseEvent'' (JObj [(''raw'', JStr ''oops'')]))"
  unfolding raw_frame_bytes by (simp add: parse_eval)

lemma complete_frames:
  "complete_frame frame1" "complete_frame frame2" "complete_frame other_frame"
  "complete_frame raw_frame"
  unfolding complete_frame_def
  by (simp_all add: frame_sizes) (simp_all add: raw_frame_bytes getUint32_def)

lemma event_at_frames:
  "event_at demo_env frame1 = ev1" "event_at demo_env other_frame = idle_ev"
  "event_at demo_env raw_frame = event_of ''toolUseEvent'' (JObj [(''raw'', JStr ''oops'')])"
  by (simp_all add: event_at_def parse_frame1 parse_other_frame parse_raw_frame idle_ev_def)

lemma handle_raw_ev:
  "handle_event demo_env kstate0 (event_of ''toolUseEvent'' (JObj [(''raw'', JStr ''oops'')])) =
     Inr (state1\<lparr>seenToolIds := [(JStr ''call_0'', 0)], clockReads := 1,
            emitted := [Data (startChunk demo_env kstate0 0 (JStr ''call_0'') (JStr []))]\<rparr>)"
  by (simp add: event_eval state1_def startChunk_def dec.simps digit_char_def demo_env_def
      char_of_def bit_0)

lemma short_head_stalls:
  "16 \<le> length short_head" "getUint32 short_head 0 < 16"
  by (simp_all add: short_head_def getUint32_def)

text \<open>
  Claim C10 at a 4-byte array, at a buffer of two frames (one of an unhandled type, both
  handled), at the frame whose payload is not JSON, and at 16 bytes with the length
  prefix 5.
\<close>

theorem parseEventFrame_total_witness:
  "parseEventFrame demo_env [0, 0, 0, 16] = None \<and>
   list_all complete_frame [other_frame, frame1] \<and>
   handle_events demo_env kstate0 (map (event_at demo_env) [other_frame, frame1]) = Inr state1 \<and>
   frames_loop demo_env (concat [other_frame, frame1] @ []) kstate0 = ([], Inr state1) \<and>
   8 \<le> length raw_frame \<and>
   payload (event_at demo_env raw_frame) = JObj [(''raw'', JStr ''oops'')] \<and>
   eventType (event_at demo_env raw_frame) = ''toolUseEvent'' \<and>
   (\<exists>st'. handle_event demo_env kstate0 (event_at demo_env raw_frame) = Inr st' \<and>
      hasToolCalls st' \<and>
      emitted st' = [Data (startChunk demo_env kstate0 0 (JStr ''call_0'') (JStr []))]) \<and>
   phase (kstate0\<lparr>buffer := short_head\<rparr>) = Open \<and>
   pull_value demo_env (kstate0\<lparr>buffer := short_head\<rparr>) frame1
     = kstate0\<lparr>buffer := short_head @ frame1\<rparr>"
proof -
  note r = parseEventFrame_total [where env = demo_env and data = "[0, 0, 0, 16]"
      and fs = "[other_frame, frame1]" and st = kstate0 and rest = "[]"
      and ev = "event_at demo_env raw_frame" and payloadStr = "''oops''"]
  note r' = parseEventFrame_total [where env = demo_env
      and st = "kstate0\<lparr>buffer := short_head\<rparr>" and v = frame1]
  from r have a: "parseEventFrame demo_env [0, 0, 0, 16] = None" by simp
  have c: "list_all complete_frame [other_frame, frame1]" by (simp add: complete_frames)
  have h: "handle_events demo_env kstate0 (map (event_at demo_env) [other_frame, frame1]) = Inr state1"
  proof -
    have "handle_event demo_env kstate0 idle_ev = Inr kstate0"
      by (simp add: idle_ev_def handle_event_def eventType_def event_of_def Let_def)
    then show ?thesis by (simp add: event_at_frames handle_ev1)
  qed
  from r c h have l: "frames_loop demo_env (concat [other_frame, frame1] @ []) kstate0
      = frames_loop demo_env [] state1"
    by blast
  have p: "payload (event_at demo_env raw_frame) = JObj [(''raw'', JStr ''oops'')]"
    and t: "eventType (event_at demo_env raw_frame) = ''toolUseEvent''"
    by (simp_all add: event_at_frames event_of_def eventType_def)
  have n: "\<not> seen_has (seenToolIds kstate0)
        (JStr (''call_'' @ dec (dateNow demo_env (clockReads kstate0))))"
    and k: "dec (dateNow demo_env (clockReads kstate0)) = ''0''"
    and z: "toolCallIndex kstate0 = 0" "emitted kstate0 = []"
    by (simp_all add: seen_has_def seen_get_def
        kstate0_def demo_env_def dec.simps digit_char_def char_of_def bit_0)
  from r p t n obtain st' where "handle_event demo_env kstate0 (event_at demo_env raw_frame) = Inr st'"
    "hasToolCalls st'"
    "emitted st' = emitted kstate0 @
                 [Data (startChunk demo_env kstate0 (toolCallIndex kstate0)
                          (JStr (''call_'' @ dec (dateNow demo_env (clockReads kstate0)))) (JStr []))]"
    by blast
  then have e: "\<exists>st'. handle_event demo_env kstate0 (event_at demo_env raw_frame) = Inr st' \<and>
      hasToolCalls st' \<and>
      emitted st' = [Data (startChunk demo_env kstate0 0 (JStr ''call_0'') (JStr []))]"
    by (simp add: k z)
  have o: "phase (kstate0\<lparr>buffer := short_head\<rparr>) = Open" by (simp add: kstate0_def)
  from r' o short_head_stalls
  have s: "pull_value demo_env (kstate0\<lparr>buffer := short_head\<rparr>) frame1
     = kstate0\<lparr>buffer := short_head @ frame1\<rparr>"
    by simp
  have l8: "8 \<le> length raw_frame" by (simp add: raw_frame_bytes)
  from a c h l p t e o s l8 show ?thesis by (simp add: frames_loop_short)
qed

text \<open>
  Claim C10 as stated fails in its consequence. The frame with the payload \<^verbatim>\<open>oops\<close> is
  not skipped: it starts a tool call under the made-up id \<^verbatim>\<open>call_0\<close> with the empty name
  and sets the has-tool-calls flag. Behind 16 bytes with the length prefix 5 the two
  frames of the scenario are never handled: they stay in the buffer and nothing is
  emitted.
\<close>

theorem parseEventFrame_total_counterexample:
  "parseEventFrame demo_env raw_frame =
     Some (event_of ''toolUseEvent'' (JObj [(''raw'', JStr ''oops'')])) \<and>
   emitted (pull_value demo_env kstate0 raw_frame)
     = [Data (startChunk demo_env kstate0 0 (JStr ''call_0'') (JStr []))] \<and>
   hasToolCalls (pull_value demo_env kstate0 raw_frame) \<and>
   transformEventStreamToSSE demo_env [Read short_head, Read frame1, Read frame2]
     = kstate0\<lparr>buffer := short_head @ frame1 @ frame2\<rparr>"
proof -
  have "pull_value demo_env kstate0 raw_frame =
     (state1\<lparr>seenToolIds := [(JStr ''call_0'', 0)], clockReads := 1,
            emitted := [Data (startChunk demo_env kstate0 0 (JStr ''call_0'') (JStr []))]\<rparr>)
       \<lparr>buffer := []\<rparr>"
    using complete_frames(4) parse_raw_frame handle_raw_ev
    by (intro pull_value_one_frame) (simp_all add: kstate0_def complete_frame_def)
  then have 1: "emitted (pull_value demo_env kstate0 raw_frame)
     = [Data (startChunk demo_env kstate0 0 (JStr ''call_0'') (JStr []))]"
    and 2: "hasToolCalls (pull_value demo_env kstate0 raw_frame)"
    by (simp_all add: state1_def)
  have s0: "pull_value demo_env kstate0 short_head = kstate0\<lparr>buffer := short_head\<rparr>"
    using frames_loop_stalls [OF short_head_stalls, of demo_env "[]" kstate0]
    by (simp add: pull_value_def kstate0_def)
  have s1: "pull_value demo_env (kstate0\<lparr>buffer := short_head\<rparr>) frame1
      = kstate0\<lparr>buffer := short_head @ frame1\<rparr>"
    using short_head_stalls by (simp add: pull_value_stalls kstate0_def)
  have s2: "pull_value demo_env (kstate0\<lparr>buffer := short_head @ frame1\<rparr>) frame2
      = kstate0\<lparr>buffer := short_head @ frame1 @ frame2\<rparr>"
    using short_head_stalls
    by (simp add: pull_value_stalls kstate0_def getUint32_append)
  from 1 2 s0 s1 s2 parse_raw_frame show ?thesis
    by (simp add: transformEventStreamToSSE_def)
qed

text \<open>
  Scenario 5 of the specification end to end, from bytes to chunks: start chunk,
  arguments chunk, finish chunk with \<^verbatim>\<open>tool_calls\<close>, \<^verbatim>\<open>data: [DONE]\<close>.
\<close>

lemma scenario_same_tool_use_id_twice:
  "emitted (transformEventStreamToSSE demo_env [Read frame1, Read frame2, ReadDone]) =
     [Data (startChunk demo_env kstate0 0 (JStr ''t1'') (JStr ''get_weather'')),
      Data (argsChunk demo_env 0 args_text),
      Data (mk_chunk demo_env (JObj []) (JStr ''tool_calls'')),
      DoneLine]"
proof -
  have "transformEventStreamToSSE demo_env [Read frame1, Read frame2, ReadDone]
          = pull_done demo_env after_two_frames"
    by (simp add: transformEventStreamToSSE_def after_two_frames_def)
  then show ?thesis
    by (simp add: after_two_frames_eq pull_done_def enqueue_def finishChunk_def state2_def)
qed

section \<open>Properties of the chat core and the account loop\<close>

lemma core_ok_result:
  assumes b: "bypassResponse env = None" and u: "upstream_ok env"
  shows "fst (handleChatCore env body) =
           (if stream_of body then Success (Response 200 EventStream)
            else (case upstream_body env of
                    None \<Rightarrow> Rejected
                  | Some j \<Rightarrow> Success (Response 200 (JsonBody j))))"
proof (cases "execute1 env")
  case ExecAbort
  with u show ?thesis by (simp add: upstream_ok_def)
next
  case (ExecError m)
  with u show ?thesis by (simp add: upstream_ok_def)
next
  case (ExecResponse r1)
  obtain r effs where ar: "after_refresh env r1 = (r, effs)" by (cases "after_refresh env r1")
  with u ExecResponse have "ok r" by (simp add: upstream_ok_def)
  with b ExecResponse ar show ?thesis
    by (simp add: handleChatCore_def upstream_body_def Let_def split: option.splits)
qed

text \<open>
  Claim C5, as amended. With no bypass and an OK upstream response (at once or after a
  refreshed retry), \<^verbatim>\<open>handleChatCore\<close> returns an event stream exactly when
  \<^verbatim>\<open>body.stream\<close> is not the boolean \<^verbatim>\<open>false\<close>: a body without the flag is streamed. When
  \<^verbatim>\<open>body.stream\<close> is \<^verbatim>\<open>false\<close> and the upstream body is JSON, that JSON is returned as one
  JSON response.
\<close>

theorem streaming_choice:
  assumes b: "bypassResponse env = None" and u: "upstream_ok env"
  shows "(is_event_stream (fst (handleChatCore env body))
            \<longleftrightarrow> get_prop body ''stream'' \<noteq> Some (JBool False)) \<and>
         (get_prop body ''stream'' \<noteq> Some (JBool False) \<longrightarrow>
            fst (handleChatCore env body) = Success (Response 200 EventStream)) \<and>
         (\<forall>j. get_prop body ''stream'' = Some (JBool False) \<and> upstream_body env = Some j \<longrightarrow>
            fst (handleChatCore env body) = Success (Response 200 (JsonBody j)))"
  by (auto simp add: core_ok_result [OF b u] stream_of_def is_event_stream_def split: option.splits)

lemma ok_env_facts: "bypassResponse ok_env = None" "upstream_ok ok_env"
  "upstream_body ok_env = Some (JObj [(''id'', JStr ''r1'')])"
  by (simp_all add: ok_env_def upstream_ok_def upstream_body_def after_refresh_def ok_def)

text \<open>
  The theorem at an upstream that answers 200 with a JSON body: a request without the
  flag, and one with \<^verbatim>\<open>stream: false\<close>.
\<close>

theorem streaming_choice_witness:
  "bypassResponse ok_env = None \<and> upstream_ok ok_env \<and>
   fst (handleChatCore ok_env plain_body) = Success (Response 200 EventStream) \<and>
   fst (handleChatCore ok_env nonstream_body)
     = Success (Response 200 (JsonBody (JObj [(''id'', JStr ''r1'')])))"
proof -
  have p: "get_prop plain_body ''stream'' \<noteq> Some (JBool False)"
    and n: "get_prop nonstream_body ''stream'' = Some (JBool False)"
    by (simp_all add: plain_body_def nonstream_body_def)
  from streaming_choice [OF ok_env_facts(1,2), of plain_body] p
  have 1: "fst (handleChatCore ok_env plain_body) = Success (Response 200 EventStream)" by blast
  from streaming_choice [OF ok_env_facts(1,2), of nonstream_body] n ok_env_facts(3)
  have 2: "fst (handleChatCore ok_env nonstream_body)
     = Success (Response 200 (JsonBody (JObj [(''id'', JStr ''r1'')])))" by blast
  from 1 2 ok_env_facts show ?thesis by blast
qed

text \<open>
  Claim C5 as stated fails: a body that does not ask for a stream (it has no
  \<^verbatim>\<open>stream\<close> flag) is answered with an event stream, since
  \<^verbatim>\<open>body.stream !== false\<close> holds for it.
\<close>

theorem streaming_choice_counterexample:
  "bypassResponse ok_env = None \<and> upstream_ok ok_env \<and>
   \<not> requests_streaming plain_body \<and>
   is_event_stream (fst (handleChatCore ok_env plain_body))"
  by (simp add: ok_env_def upstream_ok_def after_refresh_def ok_def requests_streaming_def
      plain_body_def is_event_stream_def handleChatCore_def stream_of_def Let_def)

lemma core_refresh_failed:
  assumes "bypassResponse env = None" "execute1 env = ExecResponse r"
    "up_status r = 401 \<or> up_status r = 403" "\<not> refreshed env"
    "parseUpstreamError env r = (statusCode, message, retryAfterMs)"
  shows "handleChatCore env body =
           (Failure statusCode (formatProviderError env message statusCode) retryAfterMs,
            [TrackBegin, TrackEnd])"
  using assms by (auto simp add: handleChatCore_def after_refresh_def ok_def Let_def)

text \<open>
  Claim C6, as amended. When the first credential selection finds nothing, the response
  is 400 and no account is marked. When an attempt meets an upstream 401 or 403 and no
  refresh attempt brings a token, the chat core returns an error result with the status
  \<^verbatim>\<open>parseUpstreamError\<close> reads. When the fallback policy answers such a result with
  fall-back, the account is marked unavailable with the policy's cooldown and the loop
  goes on excluding it; when the policy answers no, the error response is returned as it
  is, with no marking. When nothing is left after an exclusion, the response is 503 with
  the last error.
\<close>

theorem account_errors:
  "(getProviderCredentials W w None = None \<longrightarrow>
      account_loop W provider body w None None [] =
        Some (Responded (Response 400 (ErrorMessage (''No credentials for provider: '' @ provider))), [])) \<and>
   (bypassResponse env = None \<and> execute1 env = ExecResponse r \<and>
    (up_status r = 401 \<or> up_status r = 403) \<and> \<not> refreshed env \<and>
    parseUpstreamError env r = (statusCode, message, retryAfterMs) \<longrightarrow>
      fst (handleChatCore env body) =
        Failure statusCode (formatProviderError env message statusCode) retryAfterMs) \<and>
   (getProviderCredentials W w ex = Some c \<and> attempt W w c = (env, w1) \<and>
    fst (handleChatCore env body) = Failure st err ra \<and> checkFallbackError W st err = (True, ms) \<longrightarrow>
      account_loop W provider body w ex le marks =
        account_loop W provider body (markAccountUnavailable W w1 c ms st) (Some c) (Some err)
          (marks @ [(c, ms, st)])) \<and>
   (getProviderCredentials W w ex = Some c \<and> attempt W w c = (env, w1) \<and>
    fst (handleChatCore env body) = Failure st err ra \<and> checkFallbackError W st err = (False, ms) \<longrightarrow>
      account_loop W provider body w ex le marks =
        Some (Responded (Response st (ErrorMessage err)), marks)) \<and>
   (getProviderCredentials W w (Some c) = None \<and> c \<noteq> [] \<longrightarrow>
      account_loop W provider body w (Some c) (Some err) marks =
        Some (Responded (Response 503
                (ErrorMessage (if err \<noteq> [] then err else ''All accounts unavailable''))), marks))"
proof (intro conjI impI)
  assume "getProviderCredentials W w None = None"
  then show "account_loop W provider body w None None [] =
        Some (Responded (Response 400 (ErrorMessage (''No credentials for provider: '' @ provider))), [])"
    by (subst account_loop.simps) (simp add: truthy_str_def)
next
  assume "bypassResponse env = None \<and> execute1 env = ExecResponse r \<and>
    (up_status r = 401 \<or> up_status r = 403) \<and> \<not> refreshed env \<and>
    parseUpstreamError env r = (statusCode, message, retryAfterMs)"
  then show "fst (handleChatCore env body) =
        Failure statusCode (formatProviderError env message statusCode) retryAfterMs"
    by (simp add: core_refresh_failed)
next
  assume "getProviderCredentials W w ex = Some c \<and> attempt W w c = (env, w1) \<and>
    fst (handleChatCore env body) = Failure st err ra \<and> checkFallbackError W st err = (True, ms)"
  then show "account_loop W provider body w ex le marks =
        account_loop W provider body (markAccountUnavailable W w1 c ms st) (Some c) (Some err)
          (marks @ [(c, ms, st)])"
    by (subst account_loop.simps) simp
next
  assume "getProviderCredentials W w ex = Some c \<and> attempt W w c = (env, w1) \<and>
    fst (handleChatCore env body) = Failure st err ra \<and> checkFallbackError W st err = (False, ms)"
  then show "account_loop W provider body w ex le marks =
        Some (Responded (Response st (ErrorMessage err)), marks)"
    by (subst account_loop.simps) simp
next
  assume "getProviderCredentials W w (Some c) = None \<and> c \<noteq> []"
  then show "account_loop W provider body w (Some c) (Some err) marks =
        Some (Responded (Response 503
                (ErrorMessage (if err \<noteq> [] then err else ''All accounts unavailable''))), marks)"
    by (subst account_loop.simps) (simp add: truthy_str_def)
qed


lemma failing_core:
  "bypassResponse failing_env = None"
  "execute1 failing_env = ExecResponse \<lparr>up_status = 401, up_json = None\<rparr>"
  "\<not> refreshed failing_env"
  "parseUpstreamError failing_env \<lparr>up_status = 401, up_json = None\<rparr> = (401, ''unauthorized'', None)"
  "formatProviderError failing_env ''unauthorized'' 401 = ''unauthorized''"
  by (simp_all add: failing_env_def)

lemma demo_world_facts:
  "getProviderCredentials demo_world [''acct-1'', ''acct-2''] None = Some ''acct-1''"
  "getProviderCredentials demo_world [''acct-2''] (Some ''acct-1'') = Some ''acct-2''"
  "getProviderCredentials demo_world [] (Some ''acct-2'') = None"
  "getProviderCredentials demo_world [] None = None"
  "attempt demo_world w c = (failing_env, w)"
  "checkFallbackError demo_world 401 e = (True, 1800000)"
  "markAccountUnavailable demo_world [''acct-1'', ''acct-2''] ''acct-1'' ms s = [''acct-2'']"
  "markAccountUnavailable demo_world [''acct-2''] ''acct-2'' ms s = []"
  by (simp_all add: demo_world_def)

text \<open>
  The theorem on a provider with two accounts that both meet 401 with a failing refresh:
  both are marked for 30 minutes and the client receives 503 with the last error.
\<close>

theorem account_errors_witness:
  "handleSingleModelChat demo_world (Some ''openai'') plain_body [''acct-1'', ''acct-2''] =
     Some (Responded (Response 503 (ErrorMessage ''unauthorized'')),
           [(''acct-1'', 1800000, 401), (''acct-2'', 1800000, 401)])"
proof -
  let ?r = "\<lparr>up_status = 401, up_json = None\<rparr>"
  note a1 = account_errors [where W = demo_world and w = "[''acct-1'', ''acct-2'']"
      and provider = "''openai''" and body = plain_body and env = failing_env and r = ?r
      and statusCode = 401 and message = "''unauthorized''" and retryAfterMs = None
      and ex = None and c = "''acct-1''" and ?w1.0 = "[''acct-1'', ''acct-2'']" and st = 401
      and err = "''unauthorized''" and ra = None and ms = 1800000 and le = None and marks = "[]"]
  note a2 = account_errors [where W = demo_world and w = "[''acct-2'']"
      and provider = "''openai''" and body = plain_body and env = failing_env and r = ?r
      and statusCode = 401 and message = "''unauthorized''" and retryAfterMs = None
      and ex = "Some ''acct-1''" and c = "''acct-2''" and ?w1.0 = "[''acct-2'']" and st = 401
      and err = "''unauthorized''" and ra = None and ms = 1800000
      and le = "Some ''unauthorized''" and marks = "[(''acct-1'', 1800000, 401)]"]
  note a3 = account_errors [where W = demo_world and w = "[]"
      and provider = "''openai''" and body = plain_body and env = failing_env and r = ?r
      and statusCode = 401 and message = "''unauthorized''" and retryAfterMs = None
      and ex = "Some ''acct-1''" and c = "''acct-2''" and ?w1.0 = "[]" and st = 401
      and err = "''unauthorized''" and ra = None and ms = 1800000
      and le = "Some ''unauthorized''"
      and marks = "[(''acct-1'', 1800000, 401), (''acct-2'', 1800000, 401)]"]
  from a1 failing_core have core: "fst (handleChatCore failing_env plain_body) = Failure 401 ''unauthorized'' None"
    by simp
  from a1 core demo_world_facts
  have 1: "account_loop demo_world ''openai'' plain_body [''acct-1'', ''acct-2''] None None [] =
           account_loop demo_world ''openai'' plain_body [''acct-2''] (Some ''acct-1'') (Some ''unauthorized'')
             [(''acct-1'', 1800000, 401)]"
    by simp
  from a2 core demo_world_facts
  have 2: "account_loop demo_world ''openai'' plain_body [''acct-2''] (Some ''acct-1'') (Some ''unauthorized'')
             [(''acct-1'', 1800000, 401)] =
           account_loop demo_world ''openai'' plain_body [] (Some ''acct-2'') (Some ''unauthorized'')
             [(''acct-1'', 1800000, 401), (''acct-2'', 1800000, 401)]"
    by simp
  from a3 demo_world_facts
  have 3: "account_loop demo_world ''openai'' plain_body [] (Some ''acct-2'') (Some ''unauthorized'')
             [(''acct-1'', 1800000, 401), (''acct-2'', 1800000, 401)] =
           Some (Responded (Response 503 (ErrorMessage ''unauthorized'')),
             [(''acct-1'', 1800000, 401), (''acct-2'', 1800000, 401)])"
    by simp
  show ?thesis by (simp add: handleSingleModelChat_def truthy_str_def 1 2 3)
qed

text \<open>
  Claim C6 as stated fails: a provider with no eligible credential is answered with
  status 400, not 401 or 403, and no account is marked.
\<close>

theorem account_errors_counterexample:
  "getProviderCredentials demo_world [] None = None \<and>
   handleSingleModelChat demo_world (Some ''openai'') plain_body [] =
     Some (Responded (Response 400 (ErrorMessage ''No credentials for provider: openai'')), [])"
  unfolding handleSingleModelChat_def
  by (subst account_loop.simps) (simp add: demo_world_def truthy_str_def)

section \<open>Properties of the schema sanitizer\<close>

text \<open>
  Claim C3 at a tuple schema: the first run flattens the outer \<^verbatim>\<open>anyOf\<close> of the item and
  leaves the inner one, because the path \<^verbatim>\<open>items[0].anyOf\<close> that phase 3 collects is not
  one \<^verbatim>\<open>deleteAtPath\<close> can follow; the second run flattens that one too. Sanitizing
  twice differs from sanitizing once.
\<close>

theorem sanitizer_twice_differs:
  "cleanJSONSchemaForAntigravity tuple_schema = Some tuple_once \<and>
   cleanJSONSchemaForAntigravity tuple_once = Some tuple_twice \<and>
   tuple_once \<noteq> tuple_twice"
  by code_simp



lemma kids_empty [simp]: "(kids f kvs = []) = (kvs = [])"
  by (simp add: kids_def)

lemma keys_kids [simp]: "map fst (kids f kvs) = map fst kvs"
  by (simp add: kids_def comp_def)








lemma obj_set_nonempty [simp]: "obj_set k v kvs \<noteq> []"
  by (cases kvs) (auto split: if_splits)

lemma length_index_keys [simp]: "length (index_keys n) = n"
  by (simp add: index_keys_def)

subsection \<open>Shape of the results of addPlaceholders\<close>























lemma split_dot_nonempty [simp]: "split_dot s \<noteq> []"
  by (induction s) (auto split: list.splits)





subsection \<open>The walk collects every keyword that is reached through objects\<close>




subsection \<open>Deleting at a path\<close>












subsection \<open>The last two passes bring no unsupported keyword back\<close>










subsection \<open>A schema without allOf is never rejected\<close>















section \<open>Properties of the provider connections\<close>

lemma connection_data_provider:
  "body_field (connection_data body psd) ''provider'' = body_field body ''provider''"
  by (simp add: connection_data_def body_field_def)

lemma POST_rejects:
  assumes "isOpenAICompatibleProvider env (body_field body ''provider'')"
    and "truthy (body_field body ''provider'')"
    and "getProviderNodeById env db (body_field body ''provider'') = Some node" "truthy node"
    and "getProviderConnections env db (body_field body ''provider'') = Some cs" "cs \<noteq> []"
  shows "response_status (fst (POST env db (Some body))) = 400"
    and "snd (POST env db (Some body)) = db"
    and "truthy (body_field body ''apiKey'') \<and> truthy (body_field body ''name'') \<Longrightarrow>
         fst (POST env db (Some body)) =
           error_response ''Only one connection is allowed for this OpenAI Compatible node'' 400"
proof -
  from assms(2) have n: "body \<noteq> JNull" by (auto simp add: body_field_def)
  show "response_status (fst (POST env db (Some body))) = 400"
    using assms n by (simp add: POST_def error_response_def)
  show "snd (POST env db (Some body)) = db"
    using assms n by (simp add: POST_def)
  show "fst (POST env db (Some body)) =
           error_response ''Only one connection is allowed for this OpenAI Compatible node'' 400"
    if "truthy (body_field body ''apiKey'') \<and> truthy (body_field body ''name'')"
    using assms that n by (simp add: POST_def)
qed

lemma create_connection_keeps:
  assumes create: "\<And>db data q cs'.
      getProviderConnections env (fst (createProviderConnection env db data)) q = Some cs' \<Longrightarrow>
      \<exists>cs. getProviderConnections env db q = Some cs
        \<and> length cs' \<le> length cs + (if q = body_field data ''provider'' then 1 else 0)"
    and sync: "\<And>db q. getProviderConnections env (syncToCloudIfEnabled env db) q
                     = getProviderConnections env db q"
    and before: "at_most_one env db q"
    and room: "q = body_field body ''provider'' \<Longrightarrow> getProviderConnections env db q = Some []"
  shows "at_most_one env (snd (create_connection env db body psd)) q"
proof -
  let ?data = "connection_data body psd"
  obtain db' r where c: "createProviderConnection env db ?data = (db', r)"
    by (cases "createProviderConnection env db ?data")
  have "getProviderConnections env (snd (create_connection env db body psd)) q
          = getProviderConnections env db' q"
    using c by (cases r) (simp_all add: create_connection_def sync)
  moreover have "at_most_one env db' q"
  proof (cases "getProviderConnections env db' q")
    case None
    then show ?thesis by (simp add: at_most_one_def)
  next
    case (Some cs')
    with create [of db ?data q cs'] c obtain cs
      where cs: "getProviderConnections env db q = Some cs"
        "length cs' \<le> length cs + (if q = body_field body ''provider'' then 1 else 0)"
      by (auto simp add: connection_data_provider)
    show ?thesis
    proof (cases "q = body_field body ''provider''")
      case True
      with room cs Some show ?thesis by (simp add: at_most_one_def)
    next
      case False
      with before cs Some show ?thesis by (simp add: at_most_one_def)
    qed
  qed
  ultimately show ?thesis by (simp add: at_most_one_def)
qed

lemma POST_cases:
  "snd (POST env db request_json) = db \<or>
   (\<exists>body psd. POST env db request_json = create_connection env db body psd
      \<and> (isOpenAICompatibleProvider env (body_field body ''provider'') \<longrightarrow>
           getProviderConnections env db (body_field body ''provider'') = Some []))"
proof (cases request_json)
  case None
  then show ?thesis by (simp add: POST_def)
next
  case (Some body)
  let ?p = "body_field body ''provider''"
  show ?thesis
  proof (cases "body = JNull \<or> \<not> truthy ?p
      \<or> (\<not> APIKEY_PROVIDERS env ?p \<and> \<not> isOpenAICompatibleProvider env ?p)
      \<or> \<not> truthy (body_field body ''apiKey'') \<or> \<not> truthy (body_field body ''name'')")
    case True
    then have "snd (POST env db request_json) = db"
      by (elim disjE conjE) (simp_all add: POST_def Some)
    then show ?thesis ..
  next
    case valid: False
    show ?thesis
    proof (cases "isOpenAICompatibleProvider env ?p")
      case False
      with valid have "POST env db request_json = create_connection env db body JNull"
        by (simp add: POST_def Some)
      with False show ?thesis by blast
    next
      case True
      show ?thesis
      proof (cases "getProviderNodeById env db ?p")
        case None
        with valid True show ?thesis by (simp add: POST_def Some)
      next
        case node: (Some node)
        show ?thesis
        proof (cases "truthy node")
          case False
          with valid True node show ?thesis by (simp add: POST_def Some)
        next
          case found: True
          show ?thesis
          proof (cases "getProviderConnections env db ?p")
            case None
            with valid True node found show ?thesis by (simp add: POST_def Some)
          next
            case cs: (Some cs)
            show ?thesis
            proof (cases "cs = []")
              case False
              with valid True node found cs show ?thesis by (simp add: POST_def Some)
            next
              case empty: True
              with valid True node found cs
              have "POST env db request_json = create_connection env db body (node_data node)"
                by (simp add: POST_def Some)
              with cs empty show ?thesis by blast
            qed
          qed
        qed
      qed
    qed
  qed
qed

lemma POST_keeps:
  assumes create: "\<And>db data q cs'.
      getProviderConnections env (fst (createProviderConnection env db data)) q = Some cs' \<Longrightarrow>
      \<exists>cs. getProviderConnections env db q = Some cs
        \<and> length cs' \<le> length cs + (if q = body_field data ''provider'' then 1 else 0)"
    and sync: "\<And>db q. getProviderConnections env (syncToCloudIfEnabled env db) q
                     = getProviderConnections env db q"
    and q: "isOpenAICompatibleProvider env q"
    and before: "at_most_one env db q"
  shows "at_most_one env (snd (POST env db request_json)) q"
  using POST_cases [of env db request_json]
proof
  assume "snd (POST env db request_json) = db"
  with before show ?thesis by simp
next
  assume "\<exists>body psd. POST env db request_json = create_connection env db body psd
      \<and> (isOpenAICompatibleProvider env (body_field body ''provider'') \<longrightarrow>
           getProviderConnections env db (body_field body ''provider'') = Some [])"
  then obtain body psd where p: "POST env db request_json = create_connection env db body psd"
    and r: "isOpenAICompatibleProvider env (body_field body ''provider'') \<Longrightarrow>
           getProviderConnections env db (body_field body ''provider'') = Some []"
    by blast
  have "at_most_one env (snd (create_connection env db body psd)) q"
    using create sync before
  proof (rule create_connection_keeps)
    assume "q = body_field body ''provider''"
    with q r show "getProviderConnections env db q = Some []" by simp
  qed
  with p show ?thesis by simp
qed

text \<open>A request that takes all its steps with no other request in between is \<open>POST\<close>.\<close>

lemma step_Returned: "interleave env db [Returned r] schedule = ([Returned r], db)"
  by (induction schedule) simp_all

lemma POST_alone:
  "interleave env db [AtJson request_json] [0, 0, 0, 0, 0]
     = ([Returned (fst (POST env db request_json))], snd (POST env db request_json))"
proof (cases request_json)
  case None
  then show ?thesis by (simp add: POST_def)
next
  case (Some body)
  let ?p = "body_field body ''provider''"
  show ?thesis
  proof (cases "body = JNull \<or> \<not> truthy ?p
      \<or> (\<not> APIKEY_PROVIDERS env ?p \<and> \<not> isOpenAICompatibleProvider env ?p)
      \<or> \<not> truthy (body_field body ''apiKey'') \<or> \<not> truthy (body_field body ''name'')")
    case True
    then show ?thesis
      by (elim disjE conjE) (simp_all add: POST_def Some)
  next
    case valid: False
    have create: "interleave env db [AtCreate body psd] [0, 0]
        = ([Returned (fst (create_connection env db body psd))],
           snd (create_connection env db body psd))" for psd db
      by (cases "createProviderConnection env db (connection_data body psd)")
        (auto simp add: create_connection_def split: option.splits)
    have create': "interleave env db [AtCreate body psd] (0 # 0 # 0 # rest)
        = ([Returned (fst (create_connection env db body psd))],
           snd (create_connection env db body psd))" for psd db rest
      by (cases "createProviderConnection env db (connection_data body psd)")
        (auto simp add: create_connection_def step_Returned split: option.splits)
    show ?thesis
    proof (cases "isOpenAICompatibleProvider env ?p")
      case False
      with valid show ?thesis
        using create' [of db JNull "[0]"] by (simp add: POST_def Some)
    next
      case True
      show ?thesis
      proof (cases "getProviderNodeById env db ?p")
        case None
        with valid True show ?thesis by (simp add: POST_def Some)
      next
        case node: (Some node)
        show ?thesis
        proof (cases "truthy node")
          case False
          with valid True node show ?thesis by (simp add: POST_def Some)
        next
          case found: True
          show ?thesis
          proof (cases "getProviderConnections env db ?p")
            case None
            with valid True node found show ?thesis by (simp add: POST_def Some)
          next
            case cs: (Some cs)
            show ?thesis
            proof (cases "cs = []")
              case False
              with valid True node found cs show ?thesis by (simp add: POST_def Some)
            next
              case empty: True
              with valid True node found cs create [of db "node_data node"]
              show ?thesis by (simp add: POST_def Some)
            qed
          qed
        qed
      qed
    qed
  qed
qed

lemmas providers_eval =
  POST_def create_connection_def connection_data_def node_data_def
  demo_providers_env_def demo_request_def demo_request2_def demo_connection_def
  demo_connection2_def demo_node_id_def body_field_def js_or_def error_response_def
  at_most_one_def

lemma overlapping_requests:
  "interleave demo_providers_env [] [AtJson (Some demo_request), AtJson (Some demo_request2)]
     [0, 1, 0, 1, 0, 1, 0, 1, 0, 1]
   = ([Returned (NextResponse 201
         (JObj [(''connection'', JObj (obj_delete ''apiKey'' (entries demo_connection)))])),
       Returned (NextResponse 201
         (JObj [(''connection'', JObj (obj_delete ''apiKey'' (entries demo_connection2)))]))],
      [demo_connection, demo_connection2])"
  by (simp add: providers_eval)

lemma serial_requests:
  "interleave demo_providers_env [] [AtJson (Some demo_request), AtJson (Some demo_request2)]
     [0, 0, 0, 0, 0, 1, 1, 1, 1, 1]
   = ([Returned (NextResponse 201
         (JObj [(''connection'', JObj (obj_delete ''apiKey'' (entries demo_connection)))])),
       Returned (error_response
         ''Only one connection is allowed for this OpenAI Compatible node'' 400)],
      [demo_connection])"
  by (simp add: providers_eval)

lemma two_connections:
  "at_most_one demo_providers_env [] demo_node_id"
  "at_most_one demo_providers_env [demo_connection] demo_node_id"
  "\<not> at_most_one demo_providers_env [demo_connection, demo_connection2] demo_node_id"
  by (simp_all add: providers_eval)

text \<open>
  Claim C9. A request for an OpenAI-compatible provider whose node is found and that
  already has a connection when the handler looks is answered with status 400 and leaves
  the database as it was; with an API key and a name in the request the answer is the
  error \<^verbatim>\<open>Only one connection is allowed for this OpenAI Compatible node\<close>. A request
  that takes its steps with no other request in between is \<open>POST\<close>. But nothing keeps
  two requests apart: when two requests for the sample node, which has no connection,
  take their steps in turn, both find no connection, both create one and both are
  answered with 201, and the node has two connections.
\<close>

theorem one_connection_per_node:
  "(isOpenAICompatibleProvider env (body_field body ''provider'')
      \<and> truthy (body_field body ''provider'')
      \<and> getProviderNodeById env db (body_field body ''provider'') = Some node
      \<and> truthy node
      \<and> getProviderConnections env db (body_field body ''provider'') = Some cs
      \<and> cs \<noteq> [] \<longrightarrow>
        response_status (fst (POST env db (Some body))) = 400
        \<and> snd (POST env db (Some body)) = db
        \<and> (truthy (body_field body ''apiKey'') \<and> truthy (body_field body ''name'') \<longrightarrow>
             fst (POST env db (Some body)) =
               error_response
                 ''Only one connection is allowed for this OpenAI Compatible node'' 400))
   \<and> interleave env db [AtJson request_json] [0, 0, 0, 0, 0]
       = ([Returned (fst (POST env db request_json))], snd (POST env db request_json))
   \<and> at_most_one demo_providers_env [] demo_node_id
   \<and> interleave demo_providers_env []
        [AtJson (Some demo_request), AtJson (Some demo_request2)] [0, 1, 0, 1, 0, 1, 0, 1, 0, 1]
       = ([Returned (NextResponse 201
             (JObj [(''connection'', JObj (obj_delete ''apiKey'' (entries demo_connection)))])),
           Returned (NextResponse 201
             (JObj [(''connection'', JObj (obj_delete ''apiKey'' (entries demo_connection2)))]))],
          [demo_connection, demo_connection2])
   \<and> \<not> at_most_one demo_providers_env [demo_connection, demo_connection2] demo_node_id"
proof -
  have "response_status (fst (POST env db (Some body))) = 400
        \<and> snd (POST env db (Some body)) = db
        \<and> (truthy (body_field body ''apiKey'') \<and> truthy (body_field body ''name'') \<longrightarrow>
             fst (POST env db (Some body)) =
               error_response
                 ''Only one connection is allowed for this OpenAI Compatible node'' 400)"
    if "isOpenAICompatibleProvider env (body_field body ''provider'')
      \<and> truthy (body_field body ''provider'')
      \<and> getProviderNodeById env db (body_field body ''provider'') = Some node
      \<and> truthy node
      \<and> getProviderConnections env db (body_field body ''provider'') = Some cs
      \<and> cs \<noteq> []"
    using that POST_rejects [of env body db node cs] by blast
  with POST_alone [of env db request_json] overlapping_requests two_connections(1,3)
  show ?thesis by blast
qed

text \<open>
  Two requests for the sample node one after the other: the first creates the
  connection, the second is rejected and the database keeps its one connection.
\<close>

theorem one_connection_per_node_witness:
  "isOpenAICompatibleProvider demo_providers_env (body_field demo_request2 ''provider'')
   \<and> truthy (body_field demo_request2 ''provider'')
   \<and> getProviderConnections demo_providers_env [demo_connection]
        (body_field demo_request2 ''provider'') = Some [demo_connection]
   \<and> POST demo_providers_env [demo_connection] (Some demo_request2) =
       (error_response ''Only one connection is allowed for this OpenAI Compatible node'' 400,
        [demo_connection])
   \<and> interleave demo_providers_env [] [AtJson (Some demo_request), AtJson (Some demo_request2)]
        [0, 0, 0, 0, 0, 1, 1, 1, 1, 1]
       = ([Returned (NextResponse 201
             (JObj [(''connection'', JObj (obj_delete ''apiKey'' (entries demo_connection)))])),
           Returned (error_response
             ''Only one connection is allowed for this OpenAI Compatible node'' 400)],
          [demo_connection])
   \<and> at_most_one demo_providers_env [demo_connection] demo_node_id"
proof -
  have f: "isOpenAICompatibleProvider demo_providers_env (body_field demo_request2 ''provider'')"
    "truthy (body_field demo_request2 ''provider'')"
    "truthy (body_field demo_request2 ''apiKey'')"
    "truthy (body_field demo_request2 ''name'')"
    "getProviderNodeById demo_providers_env [demo_connection] (body_field demo_request2 ''provider'')
       = Some (JObj [(''id'', demo_node_id), (''apiType'', JStr ''chat''),
                     (''baseUrl'', JStr ''http://localhost/v1''), (''name'', JStr ''local'')])"
    "getProviderConnections demo_providers_env [demo_connection]
       (body_field demo_request2 ''provider'') = Some [demo_connection]"
    by (simp_all add: demo_providers_env_def demo_request2_def demo_connection_def
        demo_node_id_def body_field_def)
  note t = one_connection_per_node [where env = demo_providers_env and body = demo_request2
      and db = "[demo_connection]" and cs = "[demo_connection]"
      and node = "JObj [(''id'', demo_node_id), (''apiType'', JStr ''chat''),
                     (''baseUrl'', JStr ''http://localhost/v1''), (''name'', JStr ''local'')]"]
  from t f
  have "snd (POST demo_providers_env [demo_connection] (Some demo_request2)) = [demo_connection]"
    and "fst (POST demo_providers_env [demo_connection] (Some demo_request2)) =
      error_response ''Only one connection is allowed for this OpenAI Compatible node'' 400"
    by simp_all
  with f serial_requests two_connections(2) show ?thesis
    by (simp add: prod_eq_iff)
qed

end
